theory Spec2Isabelle
  imports Complex_Main
begin

section \<open>Python strings\<close>

text \<open>
  Strings are lists of 8-bit characters.  Case mapping, whitespace and the character
  classes follow Python on the ASCII range; a character above 127 has no case and is
  not whitespace.
\<close>

definition is_upper :: "char \<Rightarrow> bool" where
  "is_upper c = (65 \<le> (of_char c :: nat) \<and> (of_char c :: nat) \<le> 90)"




definition is_space :: "char \<Rightarrow> bool" where
  \<comment> \<open>\<open>str.isspace\<close> and the class \<open>\s\<close>: tab to carriage return, the four separators, blank\<close>
  "is_space c = ((9 \<le> (of_char c :: nat) \<and> (of_char c :: nat) \<le> 13)
               \<or> (28 \<le> (of_char c :: nat) \<and> (of_char c :: nat) \<le> 32))"

definition lower_char :: "char \<Rightarrow> char" where
  "lower_char c = (if is_upper c then char_of ((of_char c :: nat) + 32) else c)"


definition lower :: "string \<Rightarrow> string" where
  "lower s = map lower_char s"


definition startswith :: "string \<Rightarrow> string \<Rightarrow> bool" where
  "startswith s p = (take (length p) s = p)"

fun str_in :: "string \<Rightarrow> string \<Rightarrow> bool" where
  \<comment> \<open>\<open>sub in s\<close>\<close>
  "str_in sub [] = (sub = [])"
| "str_in sub (x # xs) = (startswith (x # xs) sub \<or> str_in sub xs)"

definition strip :: "string \<Rightarrow> string" where
  "strip s = rev (dropWhile is_space (rev (dropWhile is_space s)))"



fun split_on :: "(char \<Rightarrow> bool) \<Rightarrow> string \<Rightarrow> string list" where
  "split_on p [] = [[]]"
| "split_on p (x # xs) =
     (if p x then [] # split_on p xs
      else (case split_on p xs of [] \<Rightarrow> [[x]] | w # ws \<Rightarrow> (x # w) # ws))"


definition split_char :: "char \<Rightarrow> string \<Rightarrow> string list" where
  \<comment> \<open>\<open>s.split(c)\<close> for a one-character separator\<close>
  "split_char c s = split_on (\<lambda>x. x = c) s"


fun join :: "string \<Rightarrow> string list \<Rightarrow> string" where
  "join sep [] = []"
| "join sep [x] = x"
| "join sep (x # y # ys) = x @ sep @ join sep (y # ys)"

definition digit_char :: "nat \<Rightarrow> char" where
  "digit_char d = char_of (48 + d)"

fun str_nat :: "nat \<Rightarrow> string" where
  \<comment> \<open>\<open>str(n)\<close> of a non-negative integer\<close>
  "str_nat n = (if n < 10 then [digit_char n] else str_nat (n div 10) @ [digit_char (n mod 10)])"


definition quote :: char where
  "quote = CHR 0x27"

section \<open>Regular expressions (the fragment of \<open>re\<close> the parser uses)\<close>





























section \<open>The instruction parser (\<open>agent/universal_parser.py\<close>)\<close>

subsection \<open>Actions\<close>

text \<open>
  An action is a dictionary; the record has one optional field per key the parser
  writes or the executor reads.  An absent key is \<open>None\<close>.
\<close>

record action =
  a_action :: string
  a_url :: "string option"
  a_seconds :: "rat option"
  a_query :: "string option"
  a_selector :: "string option"
  a_description :: "string option"
  a_value :: "string option"
  a_field_type :: "string option"
  a_text :: "string option"
  a_type :: "string option"
  a_min_indicators :: "nat option"
  a_is_random_data :: "bool option"
  a_error :: "string option"
  a_missing_fields :: "string list option"
  a_suggestion :: "string option"
  a_details :: "string option"
  a_message :: "string option"

definition act :: "string \<Rightarrow> action" where
  \<comment> \<open>\<open>{"action": kind}\<close>\<close>
  "act kind = \<lparr> a_action = kind, a_url = None, a_seconds = None, a_query = None,
      a_selector = None, a_description = None, a_value = None, a_field_type = None,
      a_text = None, a_type = None, a_min_indicators = None, a_is_random_data = None,
      a_error = None, a_missing_fields = None, a_suggestion = None, a_details = None,
      a_message = None \<rparr>"

definition navigate_action :: "string \<Rightarrow> action" where
  "navigate_action u = (act ''navigate'')\<lparr>a_url := Some u\<rparr>"

definition wait_action :: "rat \<Rightarrow> action" where
  "wait_action s = (act ''wait'')\<lparr>a_seconds := Some s\<rparr>"

definition type_action :: "string \<Rightarrow> string \<Rightarrow> string \<Rightarrow> string \<Rightarrow> action" where
  "type_action sel v ft d = (act ''type'')\<lparr>a_selector := Some sel, a_value := Some v,
      a_field_type := Some ft, a_description := Some d\<rparr>"



definition validate_action :: "string \<Rightarrow> string \<Rightarrow> nat \<Rightarrow> string \<Rightarrow> action" where
  "validate_action ty t m d = (act ''validate_page'')\<lparr>a_type := Some ty, a_text := Some t,
      a_min_indicators := Some m, a_description := Some d\<rparr>"

subsection \<open>Site configurations\<close>




subsection \<open>Random data\<close>











subsection \<open>Field extraction, site and intent\<close>













subsection \<open>Site-specific action sequences\<close>










subsection \<open>The intent handlers and \<open>parse\<close>\<close>


definition the_str :: "string option \<Rightarrow> string" where
  \<comment> \<open>the string of a value already tested to be neither \<open>None\<close> nor empty\<close>
  "the_str v = (case v of None \<Rightarrow> [] | Some s \<Rightarrow> s)"








section \<open>The execution engine (\<open>agent/universal_executor.py\<close>)\<close>

subsection \<open>Step results, the executor's state and the browser\<close>

text \<open>
  A step result is a dictionary; the record keeps the keys that carry the outcome.
  The payload keys (\<open>page_analysis\<close>, \<open>result_content\<close>, \<open>result_summary\<close>,
  \<open>full_content\<close>, \<open>indicators_found\<close>) hold page text and are not modelled.
\<close>

record step =
  r_action :: string
  r_status :: string
  r_details :: string
  r_step :: "nat option"
  r_description :: "string option"
  r_field_type :: "string option"
  r_screenshot :: "string option"
  r_suggestion :: "string option"
  r_is_result_page :: bool

definition res :: "string \<Rightarrow> string \<Rightarrow> string \<Rightarrow> step" where
  \<comment> \<open>\<open>{"action": a, "status": s, "details": d}\<close>\<close>
  "res a s d = \<lparr> r_action = a, r_status = s, r_details = d, r_step = None,
      r_description = None, r_field_type = None, r_screenshot = None, r_suggestion = None,
      r_is_result_page = False \<rparr>"

record execution_state =
  current_site :: "string option"
  is_signup_flow :: bool
  has_provided_credentials :: bool
  has_generated_data :: bool
  search_query :: "string option"
  is_search_operation :: bool

record executor =
  generated_data :: "(string \<times> string) list"
  used_provided_data :: "(string \<times> string) list"
  exec_state :: execution_state

definition dict_set :: "'k \<Rightarrow> 'v \<Rightarrow> ('k \<times> 'v) list \<Rightarrow> ('k \<times> 'v) list" where
  \<comment> \<open>\<open>d[k] = v\<close> on a dictionary kept in insertion order\<close>
  "dict_set k v d =
     (if k \<in> fst ` set d then map (\<lambda>kv. if fst kv = k then (k, v) else kv) d else d @ [(k, v)])"

text \<open>
  The browser is an input of the engine: a state \<open>'w\<close> and the operations the handlers
  run on the page.  Each operation stands for the block of Playwright calls of one
  handler and returns whether the block completed (an exception inside the block is the
  negative answer) together with the new state.  \<open>validate_page_ops\<close> is the whole of
  \<open>_execute_validate_page\<close>, which reads the page text, never raises and returns Passed
  or Failed with its details.  \<open>screenshot_capture\<close> is \<open>None\<close> when the capture
  subsystem could not be loaded; the capture itself returns the path of the screenshot,
  or \<open>None\<close> when \<open>capture_with_analysis\<close> failed.
\<close>

record 'w browser =
  page_url :: "'w \<Rightarrow> string"
  wait_for_stability :: "'w \<Rightarrow> 'w"
  sleep :: "rat \<Rightarrow> 'w \<Rightarrow> 'w"
  goto_ops :: "string \<Rightarrow> 'w \<Rightarrow> string option \<times> 'w"
  perform_type_ops :: "string \<Rightarrow> string \<Rightarrow> 'w \<Rightarrow> bool \<times> 'w"
  generic_input_ops :: "string \<Rightarrow> 'w \<Rightarrow> bool \<times> 'w"
  perform_search_ops :: "string \<Rightarrow> string \<Rightarrow> 'w \<Rightarrow> string option \<times> 'w"
  select_ops :: "string \<Rightarrow> string \<Rightarrow> 'w \<Rightarrow> bool \<times> 'w"
  click_ops :: "string \<Rightarrow> 'w \<Rightarrow> bool \<times> 'w"
  click_text_ops :: "string \<Rightarrow> 'w \<Rightarrow> bool \<times> 'w"
  validate_page_ops :: "action \<Rightarrow> executor \<Rightarrow> 'w \<Rightarrow> (bool \<times> string) \<times> 'w"
  screenshot_capture :: "(string \<Rightarrow> bool \<Rightarrow> 'w \<Rightarrow> string option \<times> 'w) option"
  str_seconds :: "rat \<Rightarrow> string"

subsection \<open>The selector catalog\<close>

definition field_selectors :: "(string \<times> string list) list" where
  "field_selectors =
    [(''search'',
       [''#searchInput'', ''input[name='search']'', ''#twotabsearchtextbox'', ''#search'',
        ''.search-input'', ''input[type='search']'', ''input[name='q']'', ''textarea[name='q']'',
        ''input[name='search_query']'', ''input[placeholder*='Search' i]'',
        ''input[title='Search']'', ''input[type='text']'', ''input'']),
     (''email'',
       [''input[name='email-address']'', ''input[type='email']'', ''input[name='email']'',
        ''input[name='session_key']'', ''input[name='reg_email__']'', ''input[id='email']'',
        ''input[placeholder*='email' i]'', ''input[autocomplete='email']'']),
     (''username'',
       [''input[autocomplete='username']'', ''input[name='text']'', ''input[type='text']'',
        ''input[name='username']'', ''input[name='session_username']'', ''input[id='username']'',
        ''input[placeholder*='username' i]'', ''input[placeholder*='Phone' i]'']),
     (''password'',
       [''input[type='password']'', ''input[name='pass']'', ''input[name='password']'',
        ''input[name='session_password']'', ''input[name='reg_passwd__']'',
        ''input[placeholder*='password' i]'', ''input[autocomplete='new-password']'']),
     (''name'',
       [''input[name='name']'', ''input[data-testid*='name']'', ''input[placeholder*='name' i]'',
        ''input[placeholder*='Full name' i]'']),
     (''first_name'',
       [''input[name='first-name']'', ''input[id='first-name']'', ''input[name='firstname']'',
        ''input[name='firstName']'', ''input[placeholder*='first name' i]'']),
     (''last_name'',
       [''input[name='last-name']'', ''input[id='last-name']'', ''input[name='lastname']'',
        ''input[name='lastName']'', ''input[placeholder*='last name' i]''])]"

definition login_button :: "string list" where
  "login_button =
    [''button[name='login']'', ''button:has-text('Log in')'', ''button:has-text('Sign in')'',
     ''button[type='submit']'', ''button[data-testid*='Login']'',
     ''div[role='button']:has-text('Log in')'', ''input[type='submit'][value='Sign in']'']"

definition signup_button :: "string list" where
  "signup_button =
    [''a[data-testid='open-registration-form-button']'', ''a:has-text('Create New Account')'',
     ''a:has-text('Sign up')'', ''button:has-text('Sign up')'',
     ''button:has-text('Create account')'', ''button:has-text('Join')'',
     ''button:has-text('Agree & Join')'', ''button:has-text('Join now')'']"

definition next_button :: "string list" where
  "next_button =
    [''button:has-text('Next')'', ''div[role='button']:has-text('Next')'',
     ''button[type='submit']'', ''span:has-text('Next')'']"

definition add_to_cart :: "string list" where
  "add_to_cart =
    [''#add-to-cart-button'', ''button:has-text('Add to Cart' i)'', ''input[value='Add to Cart']'',
     ''button[id*='add-to-cart' i]'', ''button[class*='add-to-cart' i]'']"

definition search_button :: "string list" where
  "search_button =
    [''#searchButton'', ''.search-button'', ''button[aria-label*='search' i]'',
     ''input[type='submit'][value='Google Search']'', ''button[type='submit']'',
     ''input[value='Search']'', ''button:has-text('Search')'',
     ''input[type='submit'][value*='Search' i]'']"

subsection \<open>The action handlers\<close>

text \<open>
  A handler that tries selectors also returns the list of the selectors it attempted,
  in order; the list is not part of the Python result and serves to state which
  candidates were tried.
\<close>

fun try_each ::
  "(string \<Rightarrow> 'w \<Rightarrow> 'r option \<times> 'w) \<Rightarrow> string list \<Rightarrow> 'w
     \<Rightarrow> (string \<times> 'r) option \<times> string list \<times> 'w" where
  \<comment> \<open>\<open>for sel in sels: try: result = op(sel); return result; except: continue\<close>\<close>
  "try_each op [] w = (None, [], w)"
| "try_each op (sel # sels) w =
     (case op sel w of
        (Some r, w') \<Rightarrow> (Some (sel, r), [sel], w')
      | (None, w') \<Rightarrow>
          (case try_each op sels w' of (found, tried, w'') \<Rightarrow> (found, sel # tried, w'')))"

definition split_selectors :: "string \<Rightarrow> string list" where
  \<comment> \<open>\<open>[s.strip() for s in selector.split(',')]\<close> if the selector is not empty\<close>
  "split_selectors selector =
     (if selector \<noteq> [] then map strip (split_char (CHR '','') selector) else [])"

definition execute_navigate :: "'w browser \<Rightarrow> action \<Rightarrow> 'w \<Rightarrow> step \<times> 'w" where
  "execute_navigate B action_data w =
    (let url = the_str (a_url action_data) in
     if url = [] then (res ''navigate'' ''Failed'' ''No URL'', w)
     else (case goto_ops B url w of
             (None, w') \<Rightarrow> (res ''navigate'' ''Passed'' (''Navigated to '' @ page_url B w'), w')
           | (Some e, w') \<Rightarrow> (res ''navigate'' ''Failed'' (''Failed: '' @ e), w')))"

definition perform_search :: "'w browser \<Rightarrow> string \<Rightarrow> string \<Rightarrow> 'w \<Rightarrow> step option \<times> 'w" where
  \<comment> \<open>\<open>_perform_search\<close>: a Passed result, or \<open>None\<close> for the exception it raises\<close>
  "perform_search B query selector w =
    (case perform_search_ops B selector query w of
       (Some details, w') \<Rightarrow> (Some (res ''search'' ''Passed'' details), w')
     | (None, w') \<Rightarrow> (None, w'))"

definition execute_search :: "'w browser \<Rightarrow> action \<Rightarrow> 'w \<Rightarrow> step \<times> string list \<times> 'w" where
  "execute_search B action_data w =
    (let query = the_str (a_query action_data);
         selector = the_str (a_selector action_data)
     in
     if query = [] then (res ''search'' ''Failed'' ''No query'', [], w)
     else
       (case try_each (perform_search B query) (split_selectors selector)
               (wait_for_stability B w) of
          (Some (sel, r), tried1, w1) \<Rightarrow> (r, tried1, w1)
        | (None, tried1, w1) \<Rightarrow>
            (case try_each (perform_search B query)
                    (case map_of field_selectors ''search'' of None \<Rightarrow> [] | Some l \<Rightarrow> l) w1 of
               (Some (sel, r), tried2, w2) \<Rightarrow> (r, tried1 @ tried2, w2)
             | (None, tried2, w2) \<Rightarrow>
                 (res ''search'' ''Failed'' ''Search box not found'', tried1 @ tried2, w2))))"

definition perform_type ::
  "'w browser \<Rightarrow> string \<Rightarrow> string \<Rightarrow> string \<Rightarrow> 'w \<Rightarrow> step option \<times> 'w" where
  \<comment> \<open>\<open>_perform_type\<close>: a Passed result with the password masked, or \<open>None\<close> for the
      exception it raises\<close>
  "perform_type B val field_type selector w =
    (case perform_type_ops B selector val w of
       (True, w') \<Rightarrow>
         (let display_value = (if field_type = ''password'' then ''********'' else val)
          in (Some (res ''type'' ''Passed'' (''Typed '' @ field_type @ '': '' @ display_value)), w'))
     | (False, w') \<Rightarrow> (None, w'))"

definition linkedin_selectors :: "'w browser \<Rightarrow> string \<Rightarrow> 'w \<Rightarrow> string list" where
  "linkedin_selectors B field_type w =
    (if field_type = ''email'' \<and> str_in ''linkedin'' (page_url B w)
     then [''input[name='email-address']'', ''input[id='email-address']''] else [])"

definition catalog_selectors :: "string \<Rightarrow> string list" where
  \<comment> \<open>\<open>self.field_selectors[field_type]\<close> if \<open>field_type\<close> is a non-empty key of it\<close>
  "catalog_selectors field_type =
    (if field_type \<noteq> [] then (case map_of field_selectors field_type of None \<Rightarrow> [] | Some l \<Rightarrow> l)
     else [])"

definition execute_type ::
  "'w browser \<Rightarrow> action \<Rightarrow> string \<Rightarrow> 'w \<Rightarrow> step \<times> string list \<times> 'w" where
  "execute_type B action_data field_type w =
    (let selector = the_str (a_selector action_data);
         val = the_str (a_value action_data)
     in
     if val = [] then (res ''type'' ''Failed'' ''No value to type'', [], w)
     else
       (case try_each (perform_type B val field_type)
               (linkedin_selectors B field_type (wait_for_stability B w))
               (wait_for_stability B w) of
          (Some (sel, r), tried1, w1) \<Rightarrow> (r, tried1, w1)
        | (None, tried1, w1) \<Rightarrow>
            (case try_each (perform_type B val field_type) (split_selectors selector) w1 of
               (Some (sel, r), tried2, w2) \<Rightarrow> (r, tried1 @ tried2, w2)
             | (None, tried2, w2) \<Rightarrow>
                 (case try_each (perform_type B val field_type)
                         (catalog_selectors field_type) w2 of
                    (Some (sel, r), tried3, w3) \<Rightarrow> (r, tried1 @ tried2 @ tried3, w3)
                  | (None, tried3, w3) \<Rightarrow>
                      (case generic_input_ops B val w3 of
                         (True, w4) \<Rightarrow>
                           (res ''type'' ''Passed'' (''Typed '' @ field_type @ '': '' @ val),
                            tried1 @ tried2 @ tried3, w4)
                       | (False, w4) \<Rightarrow>
                           (res ''type'' ''Failed''
                              (''Input field for '' @ field_type @ '' not found''),
                            tried1 @ tried2 @ tried3, w4))))))"

definition execute_select :: "'w browser \<Rightarrow> action \<Rightarrow> string \<Rightarrow> 'w \<Rightarrow> step \<times> 'w" where
  "execute_select B action_data field_type w =
    (let selector = the_str (a_selector action_data);
         val = the_str (a_value action_data)
     in
     if val = [] then (res ''select'' ''Failed'' ''No value to select'', w)
     else (case select_ops B selector val (wait_for_stability B w) of
             (True, w') \<Rightarrow>
               (res ''select'' ''Passed'' (''Selected '' @ field_type @ '': '' @ val), w')
           | (False, w') \<Rightarrow>
               (res ''select'' ''Failed'' (''Could not select '' @ field_type @ '': '' @ val), w')))"

definition text_strategies :: "'w browser \<Rightarrow> string \<Rightarrow> 'w \<Rightarrow> string list" where
  \<comment> \<open>the text-based strategies of \<open>_execute_click\<close>\<close>
  "text_strategies B text w =
    (if text \<noteq> [] then
       (let text_lower = lower text in
        [''button:has-text('' @ [quote] @ text @ [quote] @ '')'',
         ''a:has-text('' @ [quote] @ text @ [quote] @ '')'',
         ''div[role='button']:has-text('' @ [quote] @ text @ [quote] @ '')'',
         ''span:has-text('' @ [quote] @ text @ [quote] @ '')'',
         ''input[value='' @ [quote] @ text @ [quote] @ '']'']
        @ (if str_in ''login'' text_lower \<or> str_in ''log in'' text_lower
              \<or> str_in ''sign in'' text_lower then login_button
           else if str_in ''sign up'' text_lower \<or> str_in ''create account'' text_lower
              \<or> str_in ''join'' text_lower \<or> str_in ''agree'' text_lower then
             signup_button
             @ (if str_in ''linkedin'' (page_url B w)
                then [''button:has-text('Agree & Join')'', ''button:has-text('Join now')'']
                else [])
           else if str_in ''next'' text_lower then next_button
           else if str_in ''add to cart'' text_lower then add_to_cart
           else if str_in ''search'' text_lower then search_button
           else []))
     else [])"

definition click_strategies :: "'w browser \<Rightarrow> action \<Rightarrow> 'w \<Rightarrow> string list" where
  \<comment> \<open>\<open>strategies = selectors_list + strategies\<close>\<close>
  "click_strategies B action_data w =
     split_selectors (the_str (a_selector action_data))
     @ text_strategies B (the_str (a_text action_data)) w"

definition perform_click :: "'w browser \<Rightarrow> string \<Rightarrow> string \<Rightarrow> 'w \<Rightarrow> step option \<times> 'w" where
  \<comment> \<open>the body of the loop over the strategies\<close>
  "perform_click B text strategy w =
    (case click_ops B strategy w of
       (True, w') \<Rightarrow>
         (Some (res ''click'' ''Passed'' (''Clicked: '' @ (if text \<noteq> [] then text else strategy))),
          w')
     | (False, w') \<Rightarrow> (None, w'))"

definition execute_click :: "'w browser \<Rightarrow> action \<Rightarrow> 'w \<Rightarrow> step \<times> string list \<times> 'w" where
  "execute_click B action_data w =
    (let selector = the_str (a_selector action_data);
         text = the_str (a_text action_data);
         w0 = wait_for_stability B w
     in
     (case try_each (perform_click B text) (click_strategies B action_data w0) w0 of
        (Some (sel, r), tried, w1) \<Rightarrow> (r, tried, w1)
      | (None, tried, w1) \<Rightarrow>
          (if text \<noteq> [] then
             (case click_text_ops B text w1 of
                (True, w2) \<Rightarrow> (res ''click'' ''Passed'' (''Clicked text: '' @ text), tried, w2)
              | (False, w2) \<Rightarrow>
                  (res ''click'' ''Failed''
                     (''Element not found: '' @ (if text \<noteq> [] then text else selector)),
                   tried, w2))
           else (res ''click'' ''Failed''
                   (''Element not found: '' @ (if text \<noteq> [] then text else selector)),
                 tried, w1))))"

definition execute_validate_page ::
  "'w browser \<Rightarrow> action \<Rightarrow> executor \<Rightarrow> 'w \<Rightarrow> step \<times> 'w" where
  "execute_validate_page B action_data X w =
    (case validate_page_ops B action_data X w of
       ((passed, details), w') \<Rightarrow>
         (res ''validate_page'' (if passed then ''Passed'' else ''Failed'') details, w'))"

definition dispatch ::
  "'w browser \<Rightarrow> action \<Rightarrow> executor \<Rightarrow> 'w \<Rightarrow> (string + step) \<times> 'w" where
  \<comment> \<open>the chain of \<open>if action == ...\<close> inside the \<open>try\<close> of the step loop; \<open>Inl\<close> is the
      message of an exception that reaches the \<open>except\<close> of the loop\<close>
  "dispatch B action_data X w =
    (let action = a_action action_data;
         field_type = the_str (a_field_type action_data)
     in
     if action = ''navigate'' then
       (case execute_navigate B action_data w of (r, w') \<Rightarrow> (Inr r, w'))
     else if action = ''search'' then
       (case execute_search B action_data w of (r, tried, w') \<Rightarrow> (Inr r, w'))
     else if action = ''type'' then
       (case execute_type B action_data field_type w of (r, tried, w') \<Rightarrow> (Inr r, w'))
     else if action = ''select'' then
       (case execute_select B action_data field_type w of (r, w') \<Rightarrow> (Inr r, w'))
     else if action = ''click'' then
       (case execute_click B action_data w of (r, tried, w') \<Rightarrow> (Inr r, w'))
     else if action = ''wait'' then
       (let seconds = (case a_seconds action_data of None \<Rightarrow> 2 | Some s \<Rightarrow> s) in
        if seconds < 0 then (Inl ''sleep length must be non-negative'', w)
        else (Inr (res ''wait'' ''Passed'' (''Waited '' @ str_seconds B seconds @ '' seconds'')),
              sleep B seconds w))
     else if action = ''validate_page'' then
       (case execute_validate_page B action_data X w of (r, w') \<Rightarrow> (Inr r, w'))
     else if action = ''info'' then
       (Inr (res ''info'' ''Passed''
               (case a_message action_data of None \<Rightarrow> ''Information'' | Some m \<Rightarrow> m)), w)
     else if action = ''generate_data'' then
       (Inr (res ''generate_data'' ''Passed''
               (case a_details action_data of None \<Rightarrow> ''Generated random data'' | Some d \<Rightarrow> d)), w)
     else (Inr (res action ''Failed'' (''Unknown action: '' @ action)), w))"

subsection \<open>The step loop and \<open>run\<close>\<close>

definition detect_current_site :: "string \<Rightarrow> string option \<Rightarrow> string option" where
  "detect_current_site url cur =
    (if str_in ''linkedin'' (lower url) then Some ''linkedin''
     else if str_in ''twitter'' (lower url) \<or> str_in ''x.com'' (lower url) then Some ''twitter''
     else if str_in ''facebook'' (lower url) then Some ''facebook''
     else if str_in ''google'' (lower url) \<or> str_in ''search'' (lower url) then Some ''search_engine''
     else if str_in ''wikipedia'' (lower url) then Some ''wikipedia''
     else cur)"

definition update_state :: "action \<Rightarrow> executor \<Rightarrow> executor" where
  \<comment> \<open>the bookkeeping at the head of the loop body, before the \<open>try\<close>\<close>
  "update_state action_data X =
    (let action = a_action action_data;
         field_type = the_str (a_field_type action_data);
         description = the_str (a_description action_data);
         val = the_str (a_value action_data);
         st0 = exec_state X;
         st1 = (if action = ''navigate''
                then st0\<lparr>current_site :=
                       detect_current_site (the_str (a_url action_data)) (current_site st0)\<rparr>
                else st0);
         st2 = (if str_in ''signup'' (lower description)
                   \<or> str_in ''create account'' (lower description)
                then st1\<lparr>is_signup_flow := True\<rparr> else st1);
         st3 = (if action = ''search'' \<or> str_in ''search'' (lower description)
                then st2\<lparr>is_search_operation := True, search_query := Some val\<rparr> else st2)
     in
     if action = ''type'' \<and> val \<noteq> [] then
       (if a_is_random_data action_data = Some True \<or> str_in ''random'' (lower description) then
          X\<lparr>exec_state := st3\<lparr>has_generated_data := True\<rparr>,
            generated_data := (if field_type \<noteq> [] then dict_set field_type val (generated_data X)
                               else generated_data X)\<rparr>
        else
          X\<lparr>exec_state := st3\<lparr>has_provided_credentials := True\<rparr>,
            used_provided_data := (if field_type \<in> set [''email'', ''password'']
                                   then dict_set field_type val (used_provided_data X)
                                   else used_provided_data X)\<rparr>)
     else X\<lparr>exec_state := st3\<rparr>)"

definition add_metadata :: "nat \<Rightarrow> action \<Rightarrow> step \<Rightarrow> step" where
  \<comment> \<open>\<open>step_result["step"] = step_number\<close> and the description and field type, when present\<close>
  "add_metadata step_number action_data r =
    r\<lparr>r_step := Some step_number,
      r_description := (if the_str (a_description action_data) \<noteq> [] \<and> r_description r = None
                        then a_description action_data else r_description r),
      r_field_type := (if the_str (a_field_type action_data) \<noteq> []
                       then a_field_type action_data else r_field_type r)\<rparr>"

definition capture_step :: "'w browser \<Rightarrow> string \<Rightarrow> 'w \<Rightarrow> string option \<times> 'w" where
  \<comment> \<open>the screenshot taken for one step, when the capture subsystem is there\<close>
  "capture_step B step_description w =
    (case screenshot_capture B of None \<Rightarrow> (None, w)
     | Some capture \<Rightarrow> capture step_description False w)"

definition with_screenshot :: "string option \<Rightarrow> step \<Rightarrow> step" where
  "with_screenshot shot r = (case shot of None \<Rightarrow> r | Some path \<Rightarrow> r\<lparr>r_screenshot := Some path\<rparr>)"

definition description_or_action :: "action \<Rightarrow> string" where
  \<comment> \<open>\<open>description or action\<close>\<close>
  "description_or_action action_data =
    (if the_str (a_description action_data) \<noteq> [] then the_str (a_description action_data)
     else a_action action_data)"

definition soft_actions :: "string list" where
  "soft_actions = [''wait'', ''validate_page'', ''info'', ''generate_data'']"

definition execution_stopped :: "string \<Rightarrow> step" where
  "execution_stopped action =
     res ''execution_stopped'' ''Failed'' (''Stopped due to failed action: '' @ action)"

definition exception_step :: "nat \<Rightarrow> action \<Rightarrow> string \<Rightarrow> step" where
  \<comment> \<open>the step built in the \<open>except\<close> branch of the loop\<close>
  "exception_step step_number action_data e =
    (res (a_action action_data) ''Failed'' (''Error: '' @ e))
      \<lparr>r_step := Some step_number,
       r_field_type := (if the_str (a_field_type action_data) \<noteq> []
                        then a_field_type action_data else None),
       r_description := (if the_str (a_description action_data) \<noteq> []
                         then a_description action_data else None)\<rparr>"

text \<open>
  The state of a run: the results so far, the executor's bookkeeping, the browser, and
  the number of actions handed to a handler (a counter the Python does not keep; it
  states how far the loop went).
\<close>

record 'w run_state =
  results :: "step list"
  xstate :: executor
  world :: "'w"
  dispatched :: nat

definition run_step :: "'w browser \<Rightarrow> nat \<Rightarrow> action \<Rightarrow> 'w run_state \<Rightarrow> 'w run_state \<times> bool" where
  \<comment> \<open>one iteration of \<open>for action_data in parsed_actions\<close>; the flag is \<open>break\<close>\<close>
  "run_step B step_number action_data s =
    (let X = update_state action_data (xstate s) in
     case dispatch B action_data X (world s) of
       (Inr r0, w1) \<Rightarrow>
         (case capture_step B (''Step '' @ str_nat step_number @ '': ''
                                @ description_or_action action_data) w1 of
            (shot, w2) \<Rightarrow>
              (let step_result = with_screenshot shot (add_metadata step_number action_data r0) in
               if r_status step_result = ''Failed'' \<and> a_action action_data \<notin> set soft_actions
               then (\<lparr>results = results s @ [step_result, execution_stopped (a_action action_data)],
                      xstate = X, world = w2, dispatched = Suc (dispatched s)\<rparr>, True)
               else (\<lparr>results = results s @ [step_result],
                      xstate = X, world = w2, dispatched = Suc (dispatched s)\<rparr>, False)))
     | (Inl e, w1) \<Rightarrow>
         (case capture_step B (''ERROR Step '' @ str_nat step_number @ '': ''
                                @ description_or_action action_data) w1 of
            (shot, w2) \<Rightarrow>
              (\<lparr>results = results s
                    @ [with_screenshot shot (exception_step step_number action_data e)],
                 xstate = X, world = w2, dispatched = Suc (dispatched s)\<rparr>, True)))"

fun run_loop :: "'w browser \<Rightarrow> nat \<Rightarrow> action list \<Rightarrow> 'w run_state \<Rightarrow> 'w run_state \<times> bool" where
  \<comment> \<open>the loop from step number \<open>n\<close> on; the flag says that the loop ended by \<open>break\<close>\<close>
  "run_loop B n [] s = (s, False)"
| "run_loop B n (action_data # rest) s =
     (case run_step B (Suc n) action_data s of
        (s', True) \<Rightarrow> (s', True)
      | (s', False) \<Rightarrow> run_loop B (Suc n) rest s')"

definition result_page_step :: "nat \<Rightarrow> string \<Rightarrow> step" where
  "result_page_step n path =
    (res ''result_page_capture'' ''Passed'' ''Result page screenshot captured with analysis'')
      \<lparr>r_step := Some n, r_description := Some ''Capture final result page'',
       r_screenshot := Some path, r_is_result_page := True\<rparr>"

definition final_capture :: "'w browser \<Rightarrow> 'w run_state \<Rightarrow> 'w run_state" where
  \<comment> \<open>\<open>if self.page and self.screenshot_capture: ... if final_screenshot_info: ...\<close>\<close>
  "final_capture B s =
    (case screenshot_capture B of
       None \<Rightarrow> s
     | Some capture \<Rightarrow>
         (case capture ''Final Result Page'' True (world s) of
            (Some path, w') \<Rightarrow>
              s\<lparr>results := results s @ [result_page_step (length (results s) + 1) path],
                world := w'\<rparr>
          | (None, w') \<Rightarrow> s\<lparr>world := w'\<rparr>))"

definition summary_item :: "string \<times> string \<Rightarrow> string" where
  \<comment> \<open>\<open>f'{k}={v[:15]}...' if len(v) > 15 else f'{k}={v}'\<close>\<close>
  "summary_item kv =
    (if length (snd kv) > 15 then fst kv @ ''='' @ take 15 (snd kv) @ ''...''
     else fst kv @ ''='' @ snd kv)"

definition data_summary :: "executor \<Rightarrow> step list" where
  "data_summary X =
    (if generated_data X \<noteq> [] \<or> used_provided_data X \<noteq> [] then
       [(res ''data_summary'' ''Info''
           (join '' | ''
              ((if used_provided_data X \<noteq> []
                then [''Provided: '' @ join '', '' (map summary_item (used_provided_data X))]
                else [])
               @ (if generated_data X \<noteq> []
                  then [''Generated: '' @ join '', '' (map summary_item (generated_data X))]
                  else []))))
          \<lparr>r_description := Some ''Data usage summary''\<rparr>]
     else [])"

definition initial_state :: "'w \<Rightarrow> 'w run_state" where
  "initial_state w =
    \<lparr>results = [],
     xstate = \<lparr>generated_data = [], used_provided_data = [],
                exec_state = \<lparr>current_site = None, is_signup_flow = False,
                   has_provided_credentials = False, has_generated_data = False,
                   search_query = None, is_search_operation = False\<rparr>\<rparr>,
     world = w, dispatched = 0\<rparr>"

definition run :: "'w browser \<Rightarrow> action list \<Rightarrow> 'w \<Rightarrow> step list" where
  \<comment> \<open>\<open>UniversalExecutor.run(parsed_actions)\<close> on a freshly launched browser \<open>w\<close>\<close>
  "run B parsed_actions w =
    (case parsed_actions of
       [] \<Rightarrow> [res ''error'' ''Failed'' ''No actions'']
     | first # _ \<Rightarrow>
         if a_action first = ''error'' then
           [(res ''error'' ''Failed''
               (case a_error first of None \<Rightarrow> ''Unknown error'' | Some e \<Rightarrow> e))
              \<lparr>r_suggestion := Some (the_str (a_suggestion first))\<rparr>]
         else
           (let s = final_capture B (fst (run_loop B 0 parsed_actions (initial_state w)))
            in results s @ data_summary (xstate s)))"

subsection \<open>Candidate lists\<close>

definition type_candidates :: "'w browser \<Rightarrow> action \<Rightarrow> string \<Rightarrow> 'w \<Rightarrow> string list" where
  \<comment> \<open>the selectors the three passes of \<open>_execute_type\<close> go through, in order\<close>
  "type_candidates B action_data field_type w =
     linkedin_selectors B field_type (wait_for_stability B w)
     @ split_selectors (the_str (a_selector action_data))
     @ catalog_selectors field_type"

definition search_candidates :: "action \<Rightarrow> string list" where
  \<comment> \<open>the selectors the two passes of \<open>_execute_search\<close> go through, in order\<close>
  "search_candidates action_data =
     split_selectors (the_str (a_selector action_data))
     @ (case map_of field_selectors ''search'' of None \<Rightarrow> [] | Some l \<Rightarrow> l)"

definition until_first :: "string set \<Rightarrow> string list \<Rightarrow> string list" where
  \<comment> \<open>the candidates up to and including the first one that belongs to \<open>P\<close>\<close>
  "until_first P cands =
     takeWhile (\<lambda>c. c \<notin> P) cands @ take 1 (dropWhile (\<lambda>c. c \<notin> P) cands)"

subsection \<open>Sample inputs\<close>


definition sample_browser :: "string \<Rightarrow> string list \<Rightarrow> bool \<Rightarrow> (string list) browser" where
  \<comment> \<open>a page at the address \<open>url\<close> on which exactly the selectors of \<open>present\<close> can be
      operated; \<open>inputs\<close> says whether some plain input accepts text.  Its state is the
      log of the selectors the handlers touched.\<close>
  "sample_browser url present inputs =
    \<lparr> page_url = (\<lambda>w. url),
      wait_for_stability = (\<lambda>w. w),
      sleep = (\<lambda>secs w. w),
      goto_ops = (\<lambda>url w. (None, w)),
      perform_type_ops = (\<lambda>sel v w. (sel \<in> set present, w @ [sel])),
      generic_input_ops = (\<lambda>v w. (inputs, w @ [''input''])),
      perform_search_ops = (\<lambda>sel q w. (if sel \<in> set present then Some (''Search completed: '' @ q)
                                         else None, w @ [sel])),
      select_ops = (\<lambda>sel v w. (sel \<in> set present, w @ [sel])),
      click_ops = (\<lambda>sel w. (sel \<in> set present, w @ [sel])),
      click_text_ops = (\<lambda>t w. (False, w @ [''text='' @ t])),
      validate_page_ops = (\<lambda>a X w. ((False, ''Validation failed''), w)),
      screenshot_capture = Some (\<lambda>d final w. (Some (''shot_'' @ d @ ''.png''), w)),
      str_seconds = (\<lambda>r. str_nat (nat \<lfloor>r\<rfloor>)) \<rparr>"

definition empty_page :: "(string list) browser" where
  \<comment> \<open>a page on which no selector can be operated and no input accepts text\<close>
  "empty_page = sample_browser ''https://example.org'' [] False"

definition failing_type :: action where
  "failing_type = type_action ''#user'' ''bob'' ''username'' ''Enter username: bob''"

definition failing_validate :: action where
  "failing_validate = validate_action ''login'' ''Profile'' 2 ''Verify login successful''"

definition closing_info :: action where
  "closing_info = (act ''info'')\<lparr>a_message := Some ''done''\<rparr>"

definition is_capture :: "step \<Rightarrow> bool" where
  \<comment> \<open>a step tagged \<open>result_page_capture\<close>\<close>
  "is_capture r = (r_action r = ''result_page_capture'')"

definition no_capture_page :: "(string list) browser" where
  \<comment> \<open>the same page when the screenshot subsystem could not be loaded\<close>
  "no_capture_page = empty_page\<lparr>screenshot_capture := None\<rparr>"

definition sample_capture :: "string \<Rightarrow> bool \<Rightarrow> string list \<Rightarrow> string option \<times> string list" where
  \<comment> \<open>the capture function of \<open>sample_browser\<close>\<close>
  "sample_capture = (\<lambda>d final w. (Some (''shot_'' @ d @ ''.png''), w))"

definition inputs_only_page :: "(string list) browser" where
  \<comment> \<open>a page on which no catalog selector can be operated but a plain input accepts text\<close>
  "inputs_only_page = sample_browser ''https://example.org'' [] True"

definition secret_type :: action where
  "secret_type = type_action [] ''Secret1'' ''password'' ''Enter password''"

definition linkedin_page :: "(string list) browser" where
  \<comment> \<open>a LinkedIn page on which the hint and the LinkedIn email field can both be operated\<close>
  "linkedin_page =
     sample_browser ''https://www.linkedin.com/signup'' [''#h'', ''input[name='email-address']''] False"

definition hinted_email :: action where
  "hinted_email = type_action ''#h'' ''a@b.co'' ''email'' ''Enter email: a@b.co''"

definition three_page :: "(string list) browser" where
  \<comment> \<open>a page on which \<open>c2\<close> and \<open>c3\<close> can be operated and \<open>c1\<close> cannot\<close>
  "three_page = sample_browser ''https://example.org'' [''c2'', ''c3''] False"

definition three_hints :: action where
  "three_hints = (type_action ''c1, c2, c3'' ''bob'' ''nickname'' ''Enter nickname: bob'')
                   \<lparr>a_query := Some ''apples'', a_text := Some ''Go''\<rparr>"

subsection \<open>The parts of the login and signup handlers\<close>









section \<open>Properties of the parser\<close>




subsection \<open>The kinds of the actions a handler emits\<close>























subsection \<open>Login without credentials\<close>




subsection \<open>The shape of an error\<close>




section \<open>Properties of the execution engine\<close>

subsection \<open>Trying candidates in order\<close>

lemma try_each_append:
  "try_each op (xs @ ys) w =
     (case try_each op xs w of
        (Some x, tried, w') \<Rightarrow> (Some x, tried, w')
      | (None, tried, w') \<Rightarrow>
          (case try_each op ys w' of (found, tried', w'') \<Rightarrow> (found, tried @ tried', w'')))"
  by (induction xs arbitrary: w) (auto split: prod.splits option.splits)

lemma try_each_static:
  assumes "\<And>sel w. (fst (op sel w) \<noteq> None) = (sel \<in> P)"
  shows "fst (snd (try_each op cands w)) = until_first P cands
       \<and> (fst (try_each op cands w) = None) = (\<forall>c\<in>set cands. c \<notin> P)"
proof (induction cands arbitrary: w)
  case Nil
  show ?case by (simp add: until_first_def)
next
  case (Cons c cs)
  show ?case
  proof (cases "c \<in> P")
    case True
    then have "fst (op c w) \<noteq> None" using assms by blast
    then obtain r w' where "op c w = (Some r, w')" by (cases "op c w") auto
    with True show ?thesis by (simp add: until_first_def)
  next
    case False
    then have "fst (op c w) = None" using assms by blast
    then obtain w' where o: "op c w = (None, w')" by (cases "op c w") auto
    obtain f t w'' where t: "try_each op cs w' = (f, t, w'')" by (cases "try_each op cs w'") auto
    from Cons [of w'] t have "t = until_first P cs" "(f = None) = (\<forall>c\<in>set cs. c \<notin> P)" by simp_all
    with False o t show ?thesis by (simp add: until_first_def)
  qed
qed

lemma try_each_found:
  "try_each op cands w = (Some (c, r), tried, w') \<Longrightarrow> tried \<noteq> [] \<and> last tried = c \<and> c \<in> set cands"
  by (induction cands arbitrary: w tried) (auto split: prod.splits option.splits)

lemma execute_type_concat:
  assumes "the_str (a_value a) \<noteq> []"
  shows "execute_type B a ft w =
    (case try_each (perform_type B (the_str (a_value a)) ft) (type_candidates B a ft w) (wait_for_stability B w) of
       (Some (sel, r), tried, w1) \<Rightarrow> (r, tried, w1)
     | (None, tried, w1) \<Rightarrow>
         (case generic_input_ops B (the_str (a_value a)) w1 of
            (True, w2) \<Rightarrow> (res ''type'' ''Passed'' (''Typed '' @ ft @ '': '' @ the_str (a_value a)), tried, w2)
          | (False, w2) \<Rightarrow> (res ''type'' ''Failed'' (''Input field for '' @ ft @ '' not found''), tried, w2)))"
  using assms
  by (simp add: execute_type_def type_candidates_def try_each_append Let_def
           split: prod.splits option.splits bool.splits)

lemma execute_search_concat:
  assumes "the_str (a_query a) \<noteq> []"
  shows "execute_search B a w =
    (case try_each (perform_search B (the_str (a_query a))) (search_candidates a) (wait_for_stability B w) of
       (Some (sel, r), tried, w1) \<Rightarrow> (r, tried, w1)
     | (None, tried, w1) \<Rightarrow> (res ''search'' ''Failed'' ''Search box not found'', tried, w1))"
  using assms
  by (simp add: execute_search_def search_candidates_def try_each_append Let_def
           split: prod.splits option.splits bool.splits)

lemma perform_type_some:
  "(fst (perform_type B v ft sel w) \<noteq> None) = fst (perform_type_ops B sel v w)"
  by (simp add: perform_type_def Let_def split: prod.splits bool.splits)

lemma perform_type_passed:
  "perform_type B v ft sel w = (Some r, w') \<Longrightarrow> r_status r = ''Passed'' \<and> r_action r = ''type''
     \<and> r_details r = ''Typed '' @ ft @ '': '' @ (if ft = ''password'' then ''********'' else v)"
  by (auto simp: perform_type_def Let_def res_def split: prod.splits bool.splits)

lemma perform_search_some:
  "(fst (perform_search B q sel w) \<noteq> None) = (fst (perform_search_ops B sel q w) \<noteq> None)"
  by (simp add: perform_search_def split: prod.splits option.splits)

lemma perform_search_passed:
  "perform_search B q sel w = (Some r, w') \<Longrightarrow> r_status r = ''Passed''"
  by (auto simp: perform_search_def res_def split: prod.splits option.splits)

lemma perform_click_some:
  "(fst (perform_click B t sel w) \<noteq> None) = fst (click_ops B sel w)"
  by (simp add: perform_click_def split: prod.splits bool.splits)

lemma perform_click_passed:
  "perform_click B t sel w = (Some r, w') \<Longrightarrow> r_status r = ''Passed''"
  by (auto simp: perform_click_def res_def split: prod.splits bool.splits)


lemma try_each_op:
  "try_each op cands w = (Some (c, r), tried, w') \<Longrightarrow> \<exists>w0. op c w0 = (Some r, w')"
  by (induction cands arbitrary: w tried) (auto split: prod.splits option.splits)

lemma run_loop_append:
  "run_loop B n (pre @ xs) s =
     (case run_loop B n pre s of
        (s1, True) \<Rightarrow> (s1, True)
      | (s1, False) \<Rightarrow> run_loop B (n + length pre) xs s1)"
  by (induction pre arbitrary: n s) (auto split: prod.splits bool.splits)

lemma with_screenshot_fields [simp]:
  "r_status (with_screenshot shot r) = r_status r"
  "r_action (with_screenshot shot r) = r_action r"
  "r_details (with_screenshot shot r) = r_details r"
  "r_step (with_screenshot shot r) = r_step r"
  by (simp_all add: with_screenshot_def split: option.splits)

lemma add_metadata_fields [simp]:
  "r_status (add_metadata k a r) = r_status r"
  "r_action (add_metadata k a r) = r_action r"
  "r_details (add_metadata k a r) = r_details r"
  "r_step (add_metadata k a r) = Some k"
  by (simp_all add: add_metadata_def)

lemma execute_type_action: "r_action (fst (execute_type B a ft w)) = ''type''"
proof (cases "the_str (a_value a) = []")
  case True
  then show ?thesis by (simp add: execute_type_def Let_def res_def)
next
  case False
  let ?op = "perform_type B (the_str (a_value a)) ft"
  obtain f tr w1 where e: "try_each ?op (type_candidates B a ft w) (wait_for_stability B w) = (f, tr, w1)"
    by (cases "try_each ?op (type_candidates B a ft w) (wait_for_stability B w)") auto
  show ?thesis
  proof (cases f)
    case None
    show ?thesis unfolding execute_type_concat [OF False] e None
      by (simp add: res_def split: prod.splits bool.splits)
  next
    case (Some cr)
    obtain c r where cr: "cr = (c, r)" by (cases cr) auto
    from e have "try_each ?op (type_candidates B a ft w) (wait_for_stability B w) = (Some (c, r), tr, w1)"
      unfolding Some cr .
    from try_each_op [OF this] obtain wa where "?op c wa = (Some r, w1)" ..
    from perform_type_passed [OF this] have "r_action r = ''type''" by simp
    then show ?thesis unfolding execute_type_concat [OF False] e Some cr by simp
  qed
qed

lemma perform_search_action:
  "perform_search B q sel w = (Some r, w') \<Longrightarrow> r_action r = ''search''"
  by (auto simp: perform_search_def res_def split: prod.splits option.splits)

lemma execute_search_action: "r_action (fst (execute_search B a w)) = ''search''"
proof (cases "the_str (a_query a) = []")
  case True
  then show ?thesis by (simp add: execute_search_def Let_def res_def)
next
  case False
  let ?op = "perform_search B (the_str (a_query a))"
  obtain f tr w1 where e: "try_each ?op (search_candidates a) (wait_for_stability B w) = (f, tr, w1)"
    by (cases "try_each ?op (search_candidates a) (wait_for_stability B w)") auto
  show ?thesis
  proof (cases f)
    case None
    show ?thesis unfolding execute_search_concat [OF False] e None
      by (simp add: res_def)
  next
    case (Some cr)
    obtain c r where cr: "cr = (c, r)" by (cases cr) auto
    from e have "try_each ?op (search_candidates a) (wait_for_stability B w) = (Some (c, r), tr, w1)"
      unfolding Some cr .
    from try_each_op [OF this] obtain wa where "?op c wa = (Some r, w1)" ..
    from perform_search_action [OF this] have "r_action r = ''search''" .
    then show ?thesis unfolding execute_search_concat [OF False] e Some cr by simp
  qed
qed

lemma perform_click_action:
  "perform_click B t sel w = (Some r, w') \<Longrightarrow> r_action r = ''click''"
  by (auto simp: perform_click_def res_def split: prod.splits bool.splits)

lemma execute_click_action: "r_action (fst (execute_click B a w)) = ''click''"
proof -
  let ?op = "perform_click B (the_str (a_text a))"
  let ?cs = "click_strategies B a (wait_for_stability B w)"
  obtain f tr w1 where e: "try_each ?op ?cs (wait_for_stability B w) = (f, tr, w1)"
    by (cases "try_each ?op ?cs (wait_for_stability B w)") auto
  show ?thesis
  proof (cases f)
    case None
    show ?thesis unfolding execute_click_def Let_def e None
      by (simp add: res_def split: prod.splits bool.splits)
  next
    case (Some cr)
    obtain c r where cr: "cr = (c, r)" by (cases cr) auto
    from e have "try_each ?op ?cs (wait_for_stability B w) = (Some (c, r), tr, w1)"
      unfolding Some cr .
    from try_each_op [OF this] obtain wa where "?op c wa = (Some r, w1)" ..
    from perform_click_action [OF this] have "r_action r = ''click''" .
    then show ?thesis unfolding execute_click_def Let_def e Some cr by simp
  qed
qed

lemma execute_navigate_action: "r_action (fst (execute_navigate B a w)) = ''navigate''"
  by (simp add: execute_navigate_def Let_def res_def split: prod.splits option.splits)

lemma execute_select_action: "r_action (fst (execute_select B a ft w)) = ''select''"
  by (simp add: execute_select_def Let_def res_def split: prod.splits bool.splits)

lemma execute_validate_page_action: "r_action (fst (execute_validate_page B a X w)) = ''validate_page''"
  by (simp add: execute_validate_page_def res_def split: prod.splits)

lemma dispatch_action:
  assumes "dispatch B a X w = (Inr r, w')"
  shows "r_action r = a_action a"
proof -
  consider "a_action a = ''navigate''" | "a_action a = ''search''" | "a_action a = ''type''"
    | "a_action a = ''select''" | "a_action a = ''click''" | "a_action a = ''wait''"
    | "a_action a = ''validate_page''" | "a_action a = ''info''" | "a_action a = ''generate_data''"
    | "a_action a \<notin> {''navigate'', ''search'', ''type'', ''select'', ''click'', ''wait'',
                      ''validate_page'', ''info'', ''generate_data''}"
    by blast
  then show ?thesis
  proof cases
    case 1
    with assms execute_navigate_action [of B a w] show ?thesis
      by (auto simp: dispatch_def Let_def split: prod.splits)
  next
    case 2
    with assms execute_search_action [of B a w] show ?thesis
      by (auto simp: dispatch_def Let_def split: prod.splits)
  next
    case 3
    with assms execute_type_action [of B a "the_str (a_field_type a)" w] show ?thesis
      by (auto simp: dispatch_def Let_def split: prod.splits)
  next
    case 4
    with assms execute_select_action [of B a "the_str (a_field_type a)" w] show ?thesis
      by (auto simp: dispatch_def Let_def split: prod.splits)
  next
    case 5
    with assms execute_click_action [of B a w] show ?thesis
      by (auto simp: dispatch_def Let_def split: prod.splits)
  next
    case 6
    with assms show ?thesis
      by (auto simp: dispatch_def Let_def res_def split: if_splits)
  next
    case 7
    with assms execute_validate_page_action [of B a X w] show ?thesis
      by (auto simp: dispatch_def Let_def split: prod.splits)
  next
    case 8
    with assms show ?thesis by (auto simp: dispatch_def Let_def res_def)
  next
    case 9
    with assms show ?thesis by (auto simp: dispatch_def Let_def res_def)
  next
    case 10
    with assms show ?thesis by (auto simp: dispatch_def Let_def res_def)
  qed
qed

lemma run_step_returned:
  assumes "dispatch B a (update_state a (xstate s)) (world s) = (Inr r, w1)"
  shows "\<exists>shot w2. capture_step B (''Step '' @ str_nat k @ '': '' @ description_or_action a) w1 = (shot, w2) \<and>
     run_step B k a s =
       (if r_status r = ''Failed'' \<and> a_action a \<notin> set soft_actions
        then (\<lparr>results = results s @ [with_screenshot shot (add_metadata k a r), execution_stopped (a_action a)],
               xstate = update_state a (xstate s), world = w2, dispatched = Suc (dispatched s)\<rparr>, True)
        else (\<lparr>results = results s @ [with_screenshot shot (add_metadata k a r)],
               xstate = update_state a (xstate s), world = w2, dispatched = Suc (dispatched s)\<rparr>, False))"
  using assms by (cases "capture_step B (''Step '' @ str_nat k @ '': '' @ description_or_action a) w1")
     (simp add: run_step_def Let_def)

lemma run_step_raised:
  assumes "dispatch B a (update_state a (xstate s)) (world s) = (Inl e, w1)"
  shows "\<exists>shot w2. capture_step B (''ERROR Step '' @ str_nat k @ '': '' @ description_or_action a) w1 = (shot, w2) \<and>
     run_step B k a s =
        (\<lparr>results = results s @ [with_screenshot shot (exception_step k a e)],
          xstate = update_state a (xstate s), world = w2, dispatched = Suc (dispatched s)\<rparr>, True)"
  using assms by (cases "capture_step B (''ERROR Step '' @ str_nat k @ '': '' @ description_or_action a) w1")
     (simp add: run_step_def Let_def)

lemma run_step_results:
  "\<exists>new. results (fst (run_step B k a s)) = results s @ new \<and> new \<noteq> []
         \<and> (\<forall>r\<in>set new. r_action r = a_action a \<or> r_action r = ''execution_stopped'')"
proof (cases "dispatch B a (update_state a (xstate s)) (world s)")
  case (Pair x w1)
  show ?thesis
  proof (cases x)
    case (Inl e)
    with Pair run_step_raised [of B a s e w1 k] show ?thesis
      by (auto simp: exception_step_def res_def)
  next
    case (Inr r)
    with Pair have d: "dispatch B a (update_state a (xstate s)) (world s) = (Inr r, w1)" by simp
    from dispatch_action [OF d] have "r_action r = a_action a" .
    with run_step_returned [OF d, of k] show ?thesis
      by (auto simp: execution_stopped_def res_def)
  qed
qed

lemma run_loop_results:
  "\<exists>new. results (fst (run_loop B n acts s)) = results s @ new \<and> (acts \<noteq> [] \<longrightarrow> new \<noteq> [])
         \<and> (\<forall>r\<in>set new. r_action r \<in> a_action ` set acts \<or> r_action r = ''execution_stopped'')"
proof (induction acts arbitrary: n s)
  case Nil
  show ?case by simp
next
  case (Cons a acts)
  obtain s1 b where st: "run_step B (Suc n) a s = (s1, b)" by (cases "run_step B (Suc n) a s") auto
  from run_step_results [of B "Suc n" a s] st obtain new1 where
    n1: "results s1 = results s @ new1" "new1 \<noteq> []"
        "\<forall>r\<in>set new1. r_action r = a_action a \<or> r_action r = ''execution_stopped''" by auto
  show ?case
  proof (cases b)
    case True
    with st n1 show ?thesis by auto
  next
    case False
    from Cons [of "Suc n" s1] obtain new2 where
      n2: "results (fst (run_loop B (Suc n) acts s1)) = results s1 @ new2"
          "\<forall>r\<in>set new2. r_action r \<in> a_action ` set acts \<or> r_action r = ''execution_stopped''" by auto
    have "results (fst (run_loop B n (a # acts) s)) = results s @ (new1 @ new2)"
      using st False n1 n2 by simp
    moreover have "new1 @ new2 \<noteq> []" using n1 by simp
    moreover have "\<forall>r\<in>set (new1 @ new2). r_action r \<in> a_action ` set (a # acts) \<or> r_action r = ''execution_stopped''"
      using n1 n2 by auto
    ultimately show ?thesis by blast
  qed
qed

lemma loop_no_capture:
  assumes "\<not> list_ex (\<lambda>a. a_action a = ''result_page_capture'') acts"
  shows "filter is_capture (results (fst (run_loop B 0 acts (initial_state w)))) = []"
proof -
  from run_loop_results [of B 0 acts "initial_state w"] obtain new where
    n: "results (fst (run_loop B 0 acts (initial_state w))) = new"
       "\<forall>r\<in>set new. r_action r \<in> a_action ` set acts \<or> r_action r = ''execution_stopped''"
    by (auto simp: initial_state_def)
  have "\<forall>r\<in>set new. \<not> is_capture r"
  proof
    fix r assume "r \<in> set new"
    with n have "r_action r \<in> a_action ` set acts \<or> r_action r = ''execution_stopped''" by blast
    with assms show "\<not> is_capture r" by (auto simp: is_capture_def list_ex_iff)
  qed
  with n show ?thesis by (simp add: filter_empty_conv)
qed

lemma loop_nonempty:
  "acts \<noteq> [] \<Longrightarrow> results (fst (run_loop B 0 acts (initial_state w))) \<noteq> []"
  using run_loop_results [of B 0 acts "initial_state w"] by (auto simp: initial_state_def)

lemma data_summary_no_capture: "filter is_capture (data_summary X) = []"
  by (simp add: data_summary_def is_capture_def res_def)

lemma final_capture_cases:
  "(results (final_capture B s) = results s \<and> xstate (final_capture B s) = xstate s)
   \<or> (\<exists>path. results (final_capture B s) = results s @ [result_page_step (Suc (length (results s))) path]
         \<and> xstate (final_capture B s) = xstate s)"
  by (auto simp: final_capture_def split: option.splits prod.splits)

lemma final_capture_some:
  assumes "screenshot_capture B = Some cap" "\<And>w'. fst (cap ''Final Result Page'' True w') \<noteq> None"
  shows "\<exists>path. results (final_capture B s) = results s @ [result_page_step (Suc (length (results s))) path]
         \<and> xstate (final_capture B s) = xstate s"
proof -
  obtain p w' where c: "cap ''Final Result Page'' True (world s) = (p, w')"
    by (cases "cap ''Final Result Page'' True (world s)") auto
  with assms(2) [of "world s"] obtain path where "p = Some path" by (cases p) auto
  with c assms(1) show ?thesis by (auto simp: final_capture_def)
qed

lemma final_capture_none:
  "screenshot_capture B = None \<Longrightarrow> final_capture B s = s"
  by (simp add: final_capture_def)

lemma result_page_step_capture: "is_capture (result_page_step n path)"
  by (simp add: is_capture_def result_page_step_def res_def)

lemma run_unfold:
  "acts \<noteq> [] \<Longrightarrow> a_action (hd acts) \<noteq> ''error'' \<Longrightarrow>
   run B acts w = results (final_capture B (fst (run_loop B 0 acts (initial_state w))))
                  @ data_summary (xstate (final_capture B (fst (run_loop B 0 acts (initial_state w)))))"
  by (cases acts) (simp_all add: run_def Let_def)

lemma run_early:
  "acts = [] \<or> a_action (hd acts) = ''error'' \<Longrightarrow>
   length (run B acts w) = 1 \<and> \<not> list_ex is_capture (run B acts w)"
  by (cases acts) (auto simp: run_def is_capture_def res_def)

lemma filter_capture_early:
  assumes "acts = [] \<or> a_action (hd acts) = ''error''"
  shows "filter is_capture (run B acts w) = []"
proof -
  from run_early [OF assms, of B w] have "\<not> list_ex is_capture (run B acts w)" by simp
  then show ?thesis unfolding list_ex_iff filter_empty_conv by blast
qed

lemma run_nonempty: "run B acts w \<noteq> []"
proof (cases "acts = [] \<or> a_action (hd acts) = ''error''")
  case True
  from run_early [OF True, of B w] have "length (run B acts w) = 1" by simp
  then show ?thesis by (cases "run B acts w") simp_all
next
  case False
  then have a: "acts \<noteq> []" "a_action (hd acts) \<noteq> ''error''" by simp_all
  let ?s = "fst (run_loop B 0 acts (initial_state w))"
  have ne: "results ?s \<noteq> []" using loop_nonempty [OF a(1)] .
  from final_capture_cases [of B ?s] have "results (final_capture B ?s) \<noteq> []"
  proof
    assume "results (final_capture B ?s) = results ?s \<and> xstate (final_capture B ?s) = xstate ?s"
    with ne show ?thesis by simp
  next
    assume "\<exists>path. results (final_capture B ?s) = results ?s @ [result_page_step (Suc (length (results ?s))) path]
         \<and> xstate (final_capture B ?s) = xstate ?s"
    then show ?thesis by auto
  qed
  then show ?thesis unfolding run_unfold [OF a] by simp
qed

lemma run_capture_le:
  assumes nc: "\<not> list_ex (\<lambda>a. a_action a = ''result_page_capture'') acts"
      and a: "acts \<noteq> []" "a_action (hd acts) \<noteq> ''error''"
  shows "length (filter is_capture (run B acts w)) \<le> 1"
proof -
  let ?s = "fst (run_loop B 0 acts (initial_state w))"
  have l: "filter is_capture (results ?s) = []" using loop_no_capture [OF nc] .
  from final_capture_cases [of B ?s]
  have "length (filter is_capture (results (final_capture B ?s))) \<le> 1"
  proof
    assume "results (final_capture B ?s) = results ?s \<and> xstate (final_capture B ?s) = xstate ?s"
    then have "results (final_capture B ?s) = results ?s" ..
    then show ?thesis using l by simp
  next
    assume "\<exists>path. results (final_capture B ?s) = results ?s @ [result_page_step (Suc (length (results ?s))) path]
         \<and> xstate (final_capture B ?s) = xstate ?s"
    then obtain path where "results (final_capture B ?s) = results ?s @ [result_page_step (Suc (length (results ?s))) path]"
      by blast
    then show ?thesis using l by (simp add: result_page_step_capture)
  qed
  then show ?thesis unfolding run_unfold [OF a] by (simp add: data_summary_no_capture)
qed

lemma run_capture_one:
  assumes a: "acts \<noteq> []" "a_action (hd acts) \<noteq> ''error''"
      and nc: "\<not> list_ex (\<lambda>a. a_action a = ''result_page_capture'') acts"
      and c: "screenshot_capture B = Some cap" "\<And>w'. fst (cap ''Final Result Page'' True w') \<noteq> None"
  shows "length (filter is_capture (run B acts w)) = 1"
    and "\<exists>path. run B acts w =
           results (fst (run_loop B 0 acts (initial_state w)))
           @ [result_page_step (Suc (length (results (fst (run_loop B 0 acts (initial_state w)))))) path]
           @ data_summary (xstate (fst (run_loop B 0 acts (initial_state w))))"
proof -
  let ?s = "fst (run_loop B 0 acts (initial_state w))"
  have l: "filter is_capture (results ?s) = []" using loop_no_capture [OF nc] .
  from final_capture_some [of B cap ?s, OF c] obtain path where
    p: "results (final_capture B ?s) = results ?s @ [result_page_step (Suc (length (results ?s))) path]"
    and x: "xstate (final_capture B ?s) = xstate ?s" by blast
  show "length (filter is_capture (run B acts w)) = 1"
    unfolding run_unfold [OF a] p x using l
    by (simp add: data_summary_no_capture result_page_step_capture)
  have "run B acts w = results ?s @ [result_page_step (Suc (length (results ?s))) path] @ data_summary (xstate ?s)"
    unfolding run_unfold [OF a] p x by simp
  then show "\<exists>path. run B acts w = results ?s @ [result_page_step (Suc (length (results ?s))) path]
           @ data_summary (xstate ?s)" ..
qed

lemma run_capture_none:
  assumes c: "screenshot_capture B = None"
      and nc: "\<not> list_ex (\<lambda>a. a_action a = ''result_page_capture'') acts"
      and a: "acts \<noteq> []" "a_action (hd acts) \<noteq> ''error''"
  shows "filter is_capture (run B acts w) = []"
  unfolding run_unfold [OF a] final_capture_none [OF c]
  using loop_no_capture [OF nc, of B w] by (simp add: data_summary_no_capture)

lemma execute_type_static:
  assumes tys: "\<And>sel v w. fst (perform_type_ops B sel v w) = (sel \<in> P)"
      and val: "the_str (a_value a) \<noteq> []"
  shows "fst (snd (execute_type B a ft w)) = until_first P (type_candidates B a ft w)"
    and "list_ex (\<lambda>c. c \<in> P) (type_candidates B a ft w)
           \<Longrightarrow> r_status (fst (execute_type B a ft w)) = ''Passed''"
    and "r_status (fst (execute_type B a ft w)) = ''Failed''
           \<Longrightarrow> \<not> list_ex (\<lambda>c. c \<in> P) (type_candidates B a ft w)"
proof -
  let ?op = "perform_type B (the_str (a_value a)) ft"
  let ?w0 = "wait_for_stability B w"
  let ?cs = "type_candidates B a ft w"
  have t: "\<And>sel w. (fst (?op sel w) \<noteq> None) = (sel \<in> P)"
    by (simp only: perform_type_some tys)
  obtain f tr w1 where e: "try_each ?op ?cs ?w0 = (f, tr, w1)"
    by (cases "try_each ?op ?cs ?w0") auto
  have "fst (snd (try_each ?op ?cs ?w0)) = until_first P ?cs
       \<and> (fst (try_each ?op ?cs ?w0) = None) = (\<forall>c\<in>set ?cs. c \<notin> P)"
    by (rule try_each_static [of ?op P ?cs ?w0, OF t])
  then have tr: "tr = until_first P ?cs"
    and fn: "(f = None) = (\<forall>c\<in>set ?cs. c \<notin> P)" unfolding e by simp_all
  have x: "execute_type B a ft w =
    (case (f, tr, w1) of
       (Some (sel, r), tried, w1) \<Rightarrow> (r, tried, w1)
     | (None, tried, w1) \<Rightarrow>
         (case generic_input_ops B (the_str (a_value a)) w1 of
            (True, w2) \<Rightarrow> (res ''type'' ''Passed'' (''Typed '' @ ft @ '': '' @ the_str (a_value a)), tried, w2)
          | (False, w2) \<Rightarrow> (res ''type'' ''Failed'' (''Input field for '' @ ft @ '' not found''), tried, w2)))"
    unfolding execute_type_concat [OF val] e ..
  show "fst (snd (execute_type B a ft w)) = until_first P ?cs"
    unfolding x tr by (simp split: option.splits prod.splits bool.splits)
  have passed: "r_status (fst (execute_type B a ft w)) = ''Passed''" if "f \<noteq> None"
  proof -
    from that obtain c r where f: "f = Some (c, r)" by (cases f) auto
    from e have "try_each ?op ?cs ?w0 = (Some (c, r), tr, w1)" unfolding f .
    from try_each_op [OF this] obtain wa where "?op c wa = (Some r, w1)" ..
    from perform_type_passed [OF this] have "r_status r = ''Passed''" by simp
    then show ?thesis unfolding x f by simp
  qed
  show "r_status (fst (execute_type B a ft w)) = ''Passed''" if "list_ex (\<lambda>c. c \<in> P) ?cs"
  proof -
    from that have "f \<noteq> None" unfolding fn list_ex_iff by blast
    then show ?thesis by (rule passed)
  qed
  show "\<not> list_ex (\<lambda>c. c \<in> P) ?cs" if "r_status (fst (execute_type B a ft w)) = ''Failed''"
  proof
    assume "list_ex (\<lambda>c. c \<in> P) ?cs"
    then have "f \<noteq> None" unfolding fn list_ex_iff by blast
    then have "r_status (fst (execute_type B a ft w)) = ''Passed''" by (rule passed)
    with that show False by simp
  qed
qed

lemma execute_click_static:
  assumes clk: "\<And>sel w. fst (click_ops B sel w) = (sel \<in> P)"
  shows "fst (snd (execute_click B a w)) = until_first P (click_strategies B a (wait_for_stability B w))"
    and "list_ex (\<lambda>c. c \<in> P) (click_strategies B a (wait_for_stability B w))
           \<Longrightarrow> r_status (fst (execute_click B a w)) = ''Passed''"
    and "r_status (fst (execute_click B a w)) = ''Failed''
           \<Longrightarrow> \<not> list_ex (\<lambda>c. c \<in> P) (click_strategies B a (wait_for_stability B w))"
proof -
  let ?op = "perform_click B (the_str (a_text a))"
  let ?w0 = "wait_for_stability B w"
  let ?cs = "click_strategies B a ?w0"
  have t: "\<And>sel w. (fst (?op sel w) \<noteq> None) = (sel \<in> P)"
    by (simp only: perform_click_some clk)
  obtain f tr w1 where e: "try_each ?op ?cs ?w0 = (f, tr, w1)"
    by (cases "try_each ?op ?cs ?w0") auto
  have "fst (snd (try_each ?op ?cs ?w0)) = until_first P ?cs
       \<and> (fst (try_each ?op ?cs ?w0) = None) = (\<forall>c\<in>set ?cs. c \<notin> P)"
    by (rule try_each_static [of ?op P ?cs ?w0, OF t])
  then have tr: "tr = until_first P ?cs"
    and fn: "(f = None) = (\<forall>c\<in>set ?cs. c \<notin> P)" unfolding e by simp_all
  have x: "execute_click B a w =
     (case (f, tr, w1) of
        (Some (sel, r), tried, w1) \<Rightarrow> (r, tried, w1)
      | (None, tried, w1) \<Rightarrow>
          (if the_str (a_text a) \<noteq> [] then
             (case click_text_ops B (the_str (a_text a)) w1 of
                (True, w2) \<Rightarrow> (res ''click'' ''Passed'' (''Clicked text: '' @ the_str (a_text a)), tried, w2)
              | (False, w2) \<Rightarrow>
                  (res ''click'' ''Failed''
                     (''Element not found: '' @ (if the_str (a_text a) \<noteq> [] then the_str (a_text a) else the_str (a_selector a))),
                   tried, w2))
           else (res ''click'' ''Failed''
                   (''Element not found: '' @ (if the_str (a_text a) \<noteq> [] then the_str (a_text a) else the_str (a_selector a))),
                 tried, w1)))"
    unfolding execute_click_def Let_def e ..
  show "fst (snd (execute_click B a w)) = until_first P ?cs"
    unfolding x tr by (simp split: option.splits prod.splits bool.splits)
  have passed: "r_status (fst (execute_click B a w)) = ''Passed''" if "f \<noteq> None"
  proof -
    from that obtain c r where f: "f = Some (c, r)" by (cases f) auto
    from e have "try_each ?op ?cs ?w0 = (Some (c, r), tr, w1)" unfolding f .
    from try_each_op [OF this] obtain wa where "?op c wa = (Some r, w1)" ..
    from perform_click_passed [OF this] have "r_status r = ''Passed''" by simp
    then show ?thesis unfolding x f by simp
  qed
  show "r_status (fst (execute_click B a w)) = ''Passed''" if "list_ex (\<lambda>c. c \<in> P) ?cs"
  proof -
    from that have "f \<noteq> None" unfolding fn list_ex_iff by blast
    then show ?thesis by (rule passed)
  qed
  show "\<not> list_ex (\<lambda>c. c \<in> P) ?cs" if "r_status (fst (execute_click B a w)) = ''Failed''"
  proof
    assume "list_ex (\<lambda>c. c \<in> P) ?cs"
    then have "f \<noteq> None" unfolding fn list_ex_iff by blast
    then have "r_status (fst (execute_click B a w)) = ''Passed''" by (rule passed)
    with that show False by simp
  qed
qed

lemma execute_search_static:
  assumes sea: "\<And>sel q w. (fst (perform_search_ops B sel q w) \<noteq> None) = (sel \<in> P)"
      and qry: "the_str (a_query a) \<noteq> []"
  shows "fst (snd (execute_search B a w)) = until_first P (search_candidates a)"
    and "r_status (fst (execute_search B a w)) =
           (if list_ex (\<lambda>c. c \<in> P) (search_candidates a) then ''Passed'' else ''Failed'')"
proof -
  let ?op = "perform_search B (the_str (a_query a))"
  let ?w0 = "wait_for_stability B w"
  let ?cs = "search_candidates a"
  have t: "\<And>sel w. (fst (?op sel w) \<noteq> None) = (sel \<in> P)"
    by (simp only: perform_search_some sea)
  obtain f tr w1 where e: "try_each ?op ?cs ?w0 = (f, tr, w1)"
    by (cases "try_each ?op ?cs ?w0") auto
  have "fst (snd (try_each ?op ?cs ?w0)) = until_first P ?cs
       \<and> (fst (try_each ?op ?cs ?w0) = None) = (\<forall>c\<in>set ?cs. c \<notin> P)"
    by (rule try_each_static [of ?op P ?cs ?w0, OF t])
  then have tr: "tr = until_first P ?cs"
    and fn: "(f = None) = (\<forall>c\<in>set ?cs. c \<notin> P)" unfolding e by simp_all
  have x: "execute_search B a w =
    (case (f, tr, w1) of
       (Some (sel, r), tried, w1) \<Rightarrow> (r, tried, w1)
     | (None, tried, w1) \<Rightarrow> (res ''search'' ''Failed'' ''Search box not found'', tried, w1))"
    unfolding execute_search_concat [OF qry] e ..
  show "fst (snd (execute_search B a w)) = until_first P ?cs"
    unfolding x tr by (simp split: option.splits prod.splits bool.splits)
  show "r_status (fst (execute_search B a w)) =
           (if list_ex (\<lambda>c. c \<in> P) ?cs then ''Passed'' else ''Failed'')"
  proof (cases f)
    case None
    then have "\<not> list_ex (\<lambda>c. c \<in> P) ?cs" using fn unfolding list_ex_iff by blast
    then show ?thesis unfolding x None by (simp add: res_def)
  next
    case (Some cr)
    then obtain c r where f: "f = Some (c, r)" by (cases cr) auto
    from e have "try_each ?op ?cs ?w0 = (Some (c, r), tr, w1)" unfolding f .
    from try_each_op [OF this] obtain wa where "?op c wa = (Some r, w1)" ..
    from perform_search_passed [OF this] have r: "r_status r = ''Passed''" by simp
    from f have "list_ex (\<lambda>c. c \<in> P) ?cs" using fn unfolding list_ex_iff by blast
    then show ?thesis unfolding x f using r by simp
  qed
qed

lemma execute_select_single:
  "the_str (a_value a) \<noteq> [] \<Longrightarrow>
   r_status (fst (execute_select B a ft w)) =
     (if fst (select_ops B (the_str (a_selector a)) (the_str (a_value a)) (wait_for_stability B w))
      then ''Passed'' else ''Failed'')"
  by (simp add: execute_select_def Let_def res_def split: prod.splits bool.splits)

subsection \<open>The continuation policy\<close>

text \<open>
  The branch of the loop for a handler that returned.  Take any point of a run: the loop
  has gone through the actions \<open>pre\<close> without stopping and has reached the state \<open>s1\<close>,
  and the handler of the next action \<open>a\<close> returns a result whose status is Failed.  If the
  kind of \<open>a\<close> is one of wait, validate_page, info, generate_data, the failure is recorded
  as one more step and the loop goes on with the actions after \<open>a\<close>.  Otherwise the failed
  step is recorded, a synthetic \<open>execution_stopped\<close> step follows it, the loop ends, and
  no later action is handed to a handler (the count of dispatched actions grows by one
  only).  This is what the comment of the loop announces: stop on a failed action, except
  for validation, wait and info.
\<close>

lemma continuation_policy:
  assumes pre: "run_loop B n pre s = (s1, False)"
      and disp: "dispatch B a (update_state a (xstate s1)) (world s1) = (Inr r, w1)"
      and failed: "r_status r = ''Failed''"
  shows "if a_action a \<in> set soft_actions
         then \<exists>r' s2. run_step B (Suc (n + length pre)) a s1 = (s2, False)
                \<and> results s2 = results s1 @ [r']
                \<and> r_action r' = r_action r \<and> r_status r' = ''Failed'' \<and> r_details r' = r_details r
                \<and> run_loop B n (pre @ a # rest) s = run_loop B (Suc (n + length pre)) rest s2
         else \<exists>r' s2. run_loop B n (pre @ a # rest) s = (s2, True)
                \<and> results s2 = results s1 @ [r', execution_stopped (a_action a)]
                \<and> r_action r' = r_action r \<and> r_status r' = ''Failed'' \<and> r_details r' = r_details r
                \<and> dispatched s2 = Suc (dispatched s1)"
proof -
  obtain shot w2 where
    st: "run_step B (Suc (n + length pre)) a s1 =
       (if r_status r = ''Failed'' \<and> a_action a \<notin> set soft_actions
        then (\<lparr>results = results s1 @ [with_screenshot shot (add_metadata (Suc (n + length pre)) a r), execution_stopped (a_action a)],
               xstate = update_state a (xstate s1), world = w2, dispatched = Suc (dispatched s1)\<rparr>, True)
        else (\<lparr>results = results s1 @ [with_screenshot shot (add_metadata (Suc (n + length pre)) a r)],
               xstate = update_state a (xstate s1), world = w2, dispatched = Suc (dispatched s1)\<rparr>, False))"
    using run_step_returned [OF disp] by blast
  show ?thesis
  proof (cases "a_action a \<in> set soft_actions")
    case True
    with st failed pre show ?thesis
      by (simp add: run_loop_append)
  next
    case False
    with st failed pre show ?thesis
      by (simp add: run_loop_append)
  qed
qed

text \<open>
  That branch at work on a page where nothing can be operated: after a wait, a Type action
  fails and stops the run before the closing info action; the same run with a failing
  page validation in its place goes on to the info action.
\<close>

lemma continuation_policy_witness:
  "run_loop empty_page 0 [wait_action 1] (initial_state [])
     = (fst (run_loop empty_page 0 [wait_action 1] (initial_state [])), False)
   \<and> r_status (res ''type'' ''Failed'' ''Input field for username not found'') = ''Failed''
   \<and> snd (run_loop empty_page 0 ([wait_action 1] @ failing_type # [closing_info]) (initial_state []))
   \<and> map r_action (results (fst (run_loop empty_page 0 ([wait_action 1] @ failing_type # [closing_info])
                                      (initial_state []))))
       = [''wait'', ''type'', ''execution_stopped'']
   \<and> dispatched (fst (run_loop empty_page 0 ([wait_action 1] @ failing_type # [closing_info])
                            (initial_state []))) = 2
   \<and> r_status (res ''validate_page'' ''Failed'' ''Validation failed'') = ''Failed''
   \<and> run_loop empty_page 0 ([wait_action 1] @ failing_validate # [closing_info]) (initial_state [])
       = run_loop empty_page 2 [closing_info]
           (fst (run_step empty_page 2 failing_validate
                   (fst (run_loop empty_page 0 [wait_action 1] (initial_state [])))))"
proof -
  let ?s0 = "initial_state [] :: (string list) run_state"
  let ?s1 = "fst (run_loop empty_page 0 [wait_action 1] ?s0)"
  let ?r1 = "res ''type'' ''Failed'' ''Input field for username not found''"
  let ?r2 = "res ''validate_page'' ''Failed'' ''Validation failed''"
  let ?d1 = "dispatch empty_page failing_type (update_state failing_type (xstate ?s1)) (world ?s1)"
  let ?d2 = "dispatch empty_page failing_validate (update_state failing_validate (xstate ?s1)) (world ?s1)"
  have "snd (run_loop empty_page 0 [wait_action 1] ?s0) = False" by code_simp
  then have pre: "run_loop empty_page 0 [wait_action 1] ?s0 = (?s1, False)"
    by (simp add: prod_eq_iff)
  have "fst ?d1 = Inr ?r1" by code_simp
  then have d1: "?d1 = (Inr ?r1, snd ?d1)" by (simp add: prod_eq_iff)
  have "fst ?d2 = Inr ?r2" by code_simp
  then have d2: "?d2 = (Inr ?r2, snd ?d2)" by (simp add: prod_eq_iff)
  have f1: "r_status ?r1 = ''Failed''" and f2: "r_status ?r2 = ''Failed''"
    by (simp_all add: res_def)
  have hard: "a_action failing_type \<notin> set soft_actions"
    and soft: "a_action failing_validate \<in> set soft_actions"
    by (simp_all add: failing_type_def failing_validate_def type_action_def validate_action_def
                      act_def soft_actions_def)
  have at: "a_action failing_type = ''type''"
    by (simp add: failing_type_def type_action_def act_def)
  have s1r: "map r_action (results ?s1) = [''wait'']" by code_simp
  have s1d: "dispatched ?s1 = 1" by code_simp
  from continuation_policy [OF pre d1 f1, of "[closing_info]"] hard
  obtain r' s2 where
    h: "run_loop empty_page 0 ([wait_action 1] @ failing_type # [closing_info]) ?s0 = (s2, True)"
       "results s2 = results ?s1 @ [r', execution_stopped (a_action failing_type)]"
       "r_action r' = r_action ?r1" "dispatched s2 = Suc (dispatched ?s1)"
    by auto
  from continuation_policy [OF pre d2 f2, of "[closing_info]"] soft
  obtain r'' s3 where
    k: "run_step empty_page (Suc (0 + length [wait_action 1])) failing_validate ?s1 = (s3, False)"
       "run_loop empty_page 0 ([wait_action 1] @ failing_validate # [closing_info]) ?s0
          = run_loop empty_page (Suc (0 + length [wait_action 1])) [closing_info] s3"
    by auto
  have two: "Suc (0 + length [wait_action 1]) = 2" by simp
  from k(1) have s3: "s3 = fst (run_step empty_page 2 failing_validate ?s1)"
    unfolding two by simp
  show ?thesis
    using pre f1 f2 h s1r s1d k(2) [unfolded two s3]
    by (simp add: execution_stopped_def res_def at)
qed

text \<open>
  C3.  The code departs from the claim, and from the comment of its own loop, on a step
  that is Failed because its handler raised.  A wait with a negative duration raises in
  \<open>time.sleep\<close>; its step is recorded as Failed and its kind is in the soft set, and yet
  the loop ends there: the two actions after it are never handed to a handler.  The
  same list with a failing page validation in place of the wait, a soft failure that is
  returned and not raised, runs all three actions.
\<close>

theorem failed_wait_not_continued:
  "a_action (wait_action (-2)) \<in> set soft_actions
   \<and> map r_action (results (fst (run_loop empty_page 0 [wait_action (-2), closing_info, closing_info]
                                      (initial_state [])))) = [''wait'']
   \<and> map r_status (results (fst (run_loop empty_page 0 [wait_action (-2), closing_info, closing_info]
                                      (initial_state [])))) = [''Failed'']
   \<and> dispatched (fst (run_loop empty_page 0 [wait_action (-2), closing_info, closing_info]
                            (initial_state []))) = 1
   \<and> snd (run_loop empty_page 0 [wait_action (-2), closing_info, closing_info] (initial_state []))
   \<and> a_action failing_validate \<in> set soft_actions
   \<and> map r_action (results (fst (run_loop empty_page 0 [failing_validate, closing_info, closing_info]
                                      (initial_state [])))) = [''validate_page'', ''info'', ''info'']
   \<and> map r_status (results (fst (run_loop empty_page 0 [failing_validate, closing_info, closing_info]
                                      (initial_state [])))) = [''Failed'', ''Passed'', ''Passed'']
   \<and> dispatched (fst (run_loop empty_page 0 [failing_validate, closing_info, closing_info]
                            (initial_state []))) = 3"
  by code_simp

subsection \<open>Exceptions inside a handler\<close>

text \<open>
  The branch of the loop for a handler that raised.  The exception is caught at the step
  boundary: a screenshot tagged ERROR is attempted, one Failed step carrying the message
  of the exception (and the screenshot, when there is one) is recorded, and the loop
  ends with that step as its last one; the set of kinds that continue is not consulted.
\<close>

lemma exception_halts:
  assumes pre: "run_loop B n pre s = (s1, False)"
      and disp: "dispatch B a (update_state a (xstate s1)) (world s1) = (Inl e, w1)"
  shows "\<exists>shot w2 s2.
           capture_step B (''ERROR Step '' @ str_nat (Suc (n + length pre)) @ '': '' @ description_or_action a) w1 = (shot, w2)
         \<and> run_loop B n (pre @ a # rest) s = (s2, True)
         \<and> results s2 = results s1 @ [with_screenshot shot (exception_step (Suc (n + length pre)) a e)]
         \<and> r_status (last (results s2)) = ''Failed''
         \<and> r_details (last (results s2)) = ''Error: '' @ e
         \<and> r_action (last (results s2)) = a_action a
         \<and> dispatched s2 = Suc (dispatched s1)"
proof -
  obtain shot w2 where
    c: "capture_step B (''ERROR Step '' @ str_nat (Suc (n + length pre)) @ '': '' @ description_or_action a) w1 = (shot, w2)"
    and st: "run_step B (Suc (n + length pre)) a s1 =
        (\<lparr>results = results s1 @ [with_screenshot shot (exception_step (Suc (n + length pre)) a e)],
          xstate = update_state a (xstate s1), world = w2, dispatched = Suc (dispatched s1)\<rparr>, True)"
    using run_step_raised [OF disp] by blast
  show ?thesis using c st pre
    by (simp add: run_loop_append exception_step_def res_def)
qed

text \<open>
  An instance: after a navigation, a wait of minus one second raises; the run records the
  Failed wait and stops before the info action.
\<close>

lemma exception_halts_witness:
  "snd (run_loop empty_page 0 ([navigate_action ''https://example.org''] @ wait_action (-1) # [closing_info])
          (initial_state []))
   \<and> map r_action (results (fst (run_loop empty_page 0
          ([navigate_action ''https://example.org''] @ wait_action (-1) # [closing_info]) (initial_state []))))
       = [''navigate'', ''wait'']
   \<and> r_details (last (results (fst (run_loop empty_page 0
          ([navigate_action ''https://example.org''] @ wait_action (-1) # [closing_info]) (initial_state [])))))
       = ''Error: sleep length must be non-negative''
   \<and> dispatched (fst (run_loop empty_page 0
          ([navigate_action ''https://example.org''] @ wait_action (-1) # [closing_info]) (initial_state []))) = 2"
proof -
  let ?s0 = "initial_state [] :: (string list) run_state"
  let ?pre = "[navigate_action ''https://example.org'']"
  let ?a = "wait_action (-1)"
  let ?s1 = "fst (run_loop empty_page 0 ?pre ?s0)"
  let ?d = "dispatch empty_page ?a (update_state ?a (xstate ?s1)) (world ?s1)"
  have "snd (run_loop empty_page 0 ?pre ?s0) = False" by code_simp
  then have pre: "run_loop empty_page 0 ?pre ?s0 = (?s1, False)"
    by (simp add: prod_eq_iff)
  have "fst ?d = Inl ''sleep length must be non-negative''" by code_simp
  then have d: "?d = (Inl ''sleep length must be non-negative'', snd ?d)" by (simp add: prod_eq_iff)
  have s1r: "map r_action (results ?s1) = [''navigate'']" by code_simp
  have s1d: "dispatched ?s1 = 1" by code_simp
  have aw: "a_action ?a = ''wait''" by (simp add: wait_action_def act_def)
  from exception_halts [OF pre d, of "[closing_info]"]
  obtain shot s2 where
    h: "run_loop empty_page 0 (?pre @ ?a # [closing_info]) ?s0 = (s2, True)"
       "results s2 = results ?s1 @ [with_screenshot shot (exception_step (Suc (0 + length ?pre)) ?a ''sleep length must be non-negative'')]"
       "r_details (last (results s2)) = ''Error: '' @ ''sleep length must be non-negative''"
       "dispatched s2 = Suc (dispatched ?s1)"
    by blast
  show ?thesis using h s1r s1d
    by (simp add: exception_step_def res_def aw)
qed

text \<open>
  C4.  The code departs from the claim on an action of a soft kind whose handler raises.
  The exception of a wait of minus one second is caught and recorded as a Failed step
  carrying its message, but the policy of ordinary failures is not applied to it: the
  info action that follows never runs, and the run returns the Failed wait followed by
  the final capture only.  Had the wait returned its failure, the policy would have let
  the run go on, as it does for the failing page validation in the second run.
\<close>

theorem soft_exception_stops_run:
  "a_action (wait_action (-1)) \<in> set soft_actions
   \<and> map r_action (run empty_page [wait_action (-1), closing_info] [])
     = [''wait'', ''result_page_capture'']
   \<and> map r_status (run empty_page [wait_action (-1), closing_info] []) = [''Failed'', ''Passed'']
   \<and> map r_details (take 1 (run empty_page [wait_action (-1), closing_info] []))
     = [''Error: sleep length must be non-negative'']
   \<and> map r_action (run empty_page [failing_validate, closing_info] [])
     = [''validate_page'', ''info'', ''result_page_capture'']
   \<and> map r_status (run empty_page [failing_validate, closing_info] [])
     = [''Failed'', ''Passed'', ''Passed'']"
  by code_simp

subsection \<open>The final capture\<close>

text \<open>
  C5, as the code has it.  Every run returns a non-empty list of steps.  If no action is
  itself tagged \<open>result_page_capture\<close>, the list has at most one step with that tag.
  It has exactly one, placed right after the steps of the loop and before the data
  summary, when the action list is not empty, does not start with an error action, the
  screenshot subsystem is loaded and the capture of the final page succeeds.  An empty
  list and a list that starts with an error action yield a single error step and no
  capture; so does, for the capture, a run without the screenshot subsystem.
\<close>

theorem final_capture_property:
  "run B acts w \<noteq> []
   \<and> (\<not> list_ex (\<lambda>a. a_action a = ''result_page_capture'') acts
        \<longrightarrow> length (filter is_capture (run B acts w)) \<le> 1)
   \<and> (acts \<noteq> [] \<and> a_action (hd acts) \<noteq> ''error''
        \<and> \<not> list_ex (\<lambda>a. a_action a = ''result_page_capture'') acts
        \<and> screenshot_capture B = Some cap \<and> (\<forall>w'. fst (cap ''Final Result Page'' True w') \<noteq> None)
        \<longrightarrow> length (filter is_capture (run B acts w)) = 1
          \<and> (\<exists>path. run B acts w =
                results (fst (run_loop B 0 acts (initial_state w)))
                @ [result_page_step (Suc (length (results (fst (run_loop B 0 acts (initial_state w)))))) path]
                @ data_summary (xstate (fst (run_loop B 0 acts (initial_state w))))))
   \<and> (acts = [] \<or> a_action (hd acts) = ''error''
        \<longrightarrow> length (run B acts w) = 1 \<and> \<not> list_ex is_capture (run B acts w))
   \<and> (screenshot_capture B = None \<and> \<not> list_ex (\<lambda>a. a_action a = ''result_page_capture'') acts
        \<longrightarrow> \<not> list_ex is_capture (run B acts w))"
proof (intro conjI impI)
  show "run B acts w \<noteq> []" by (rule run_nonempty)
next
  assume nc: "\<not> list_ex (\<lambda>a. a_action a = ''result_page_capture'') acts"
  show "length (filter is_capture (run B acts w)) \<le> 1"
  proof (cases "acts = [] \<or> a_action (hd acts) = ''error''")
    case True
    from filter_capture_early [OF True, of B w] show ?thesis by simp
  next
    case False
    then have "acts \<noteq> []" "a_action (hd acts) \<noteq> ''error''" by blast+
    with nc show ?thesis by (rule run_capture_le)
  qed
next
  assume h: "acts \<noteq> [] \<and> a_action (hd acts) \<noteq> ''error''
        \<and> \<not> list_ex (\<lambda>a. a_action a = ''result_page_capture'') acts
        \<and> screenshot_capture B = Some cap \<and> (\<forall>w'. fst (cap ''Final Result Page'' True w') \<noteq> None)"
  then have a: "acts \<noteq> []" "a_action (hd acts) \<noteq> ''error''"
    and nc: "\<not> list_ex (\<lambda>a. a_action a = ''result_page_capture'') acts"
    and c: "screenshot_capture B = Some cap" "\<And>w'. fst (cap ''Final Result Page'' True w') \<noteq> None"
    by blast+
  show "length (filter is_capture (run B acts w)) = 1"
    using a nc c by (rule run_capture_one(1) [where cap=cap and B=B])
  show "\<exists>path. run B acts w =
                results (fst (run_loop B 0 acts (initial_state w)))
                @ [result_page_step (Suc (length (results (fst (run_loop B 0 acts (initial_state w)))))) path]
                @ data_summary (xstate (fst (run_loop B 0 acts (initial_state w))))"
    using a nc c by (rule run_capture_one(2) [where cap=cap and B=B])
next
  assume h: "acts = [] \<or> a_action (hd acts) = ''error''"
  from run_early [OF h, of B w] show "length (run B acts w) = 1" ..
  from run_early [OF h, of B w] show "\<not> list_ex is_capture (run B acts w)" ..
next
  assume h: "screenshot_capture B = None \<and> \<not> list_ex (\<lambda>a. a_action a = ''result_page_capture'') acts"
  then have c: "screenshot_capture B = None"
    and nc: "\<not> list_ex (\<lambda>a. a_action a = ''result_page_capture'') acts" by blast+
  have "filter is_capture (run B acts w) = []"
  proof (cases "acts = [] \<or> a_action (hd acts) = ''error''")
    case True
    from filter_capture_early [OF True, of B w] show ?thesis .
  next
    case False
    then have "acts \<noteq> []" "a_action (hd acts) \<noteq> ''error''" by blast+
    with c nc show ?thesis by (rule run_capture_none)
  qed
  then show "\<not> list_ex is_capture (run B acts w)"
    unfolding list_ex_iff filter_empty_conv by blast
qed

text \<open>
  Instances: a run whose first step raises and a run whose first step fails both end with
  one capture step; the empty list and a run without the screenshot subsystem have none.
\<close>

theorem final_capture_property_witness:
  "length (filter is_capture (run empty_page [wait_action (-1), closing_info] [])) = 1
   \<and> length (filter is_capture (run empty_page [failing_type, closing_info] [])) = 1
   \<and> \<not> list_ex is_capture (run empty_page [] [])
   \<and> \<not> list_ex is_capture (run no_capture_page [closing_info] [])"
proof -
  let ?nc = "\<lambda>acts. \<not> list_ex (\<lambda>a. a_action a = ''result_page_capture'') acts"
  have c: "screenshot_capture empty_page = Some sample_capture"
    by (simp add: empty_page_def sample_browser_def sample_capture_def)
  have t: "\<forall>w'. fst (sample_capture ''Final Result Page'' True w') \<noteq> None"
    by (simp add: sample_capture_def)
  have n: "screenshot_capture no_capture_page = None"
    by (simp add: no_capture_page_def)
  have a1: "[wait_action (-1), closing_info] \<noteq> []"
           "a_action (hd [wait_action (-1), closing_info]) \<noteq> ''error''"
           "?nc [wait_action (-1), closing_info]"
    by (simp_all add: wait_action_def closing_info_def act_def)
  have a2: "[failing_type, closing_info] \<noteq> []"
           "a_action (hd [failing_type, closing_info]) \<noteq> ''error''"
           "?nc [failing_type, closing_info]"
    by (simp_all add: failing_type_def type_action_def closing_info_def act_def)
  have a3: "?nc [closing_info]"
    by (simp add: closing_info_def act_def)
  note p1 = final_capture_property [where B = empty_page and cap = sample_capture
            and acts = "[wait_action (-1), closing_info]" and w = "[]",
            THEN conjunct2, THEN conjunct2, THEN conjunct1, THEN mp, THEN conjunct1]
  note p2 = final_capture_property [where B = empty_page and cap = sample_capture
            and acts = "[failing_type, closing_info]" and w = "[]",
            THEN conjunct2, THEN conjunct2, THEN conjunct1, THEN mp, THEN conjunct1]
  note p3 = final_capture_property [where B = empty_page and cap = sample_capture
            and acts = "[]" and w = "[]",
            THEN conjunct2, THEN conjunct2, THEN conjunct2, THEN conjunct1, THEN mp, THEN conjunct2]
  note p4 = final_capture_property [where B = no_capture_page and cap = sample_capture
            and acts = "[closing_info]" and w = "[]",
            THEN conjunct2, THEN conjunct2, THEN conjunct2, THEN conjunct2, THEN mp]
  have r1: "length (filter is_capture (run empty_page [wait_action (-1), closing_info] [])) = 1"
    by (rule p1) (intro conjI a1 c t)
  have r2: "length (filter is_capture (run empty_page [failing_type, closing_info] [])) = 1"
    by (rule p2) (intro conjI a2 c t)
  have r3: "\<not> list_ex is_capture (run empty_page [] [])"
    by (rule p3) (rule disjI1, rule refl)
  have r4: "\<not> list_ex is_capture (run no_capture_page [closing_info] [])"
    by (rule p4) (intro conjI n a3)
  from r1 r2 r3 r4 show ?thesis by (intro conjI)
qed

text \<open>
  C5 as stated fails: without the screenshot subsystem the run of one info action returns
  that step alone, and the empty action list returns one error step.
\<close>

theorem no_capture_without_screenshots:
  "map r_action (run no_capture_page [closing_info] []) = [''info'']
   \<and> map r_action (run empty_page [] []) = [''error'']"
  by code_simp

subsection \<open>Masking of passwords\<close>

text \<open>
  C2.  On a page where no candidate selector of the password field can be operated but a
  plain input accepts text, the Type action of a password is recorded with the details
  "Typed password: Secret1": the generic-input fallback of \<open>_execute_type\<close> does not
  mask the value, unlike \<open>_perform_type\<close>.  The data summary at the end of the run
  repeats the value.
\<close>

theorem password_unmasked_in_generic_fallback:
  "map r_action (run inputs_only_page [secret_type] []) = [''type'', ''result_page_capture'', ''data_summary'']
   \<and> map r_details (run inputs_only_page [secret_type] [])
       = [''Typed password: Secret1'', ''Result page screenshot captured with analysis'',
          ''Provided: password=Secret1'']"
  by code_simp

subsection \<open>Selector resolution\<close>

text \<open>
  C7, as the code has it.  On a page where the success of an operation depends on the
  selector alone (\<open>P\<close> is the set of the selectors that can be operated), a Type action
  with a value goes through, in this order, the two LinkedIn selectors (only for the
  email field on a LinkedIn page), the hint split on commas, and the catalog list of its
  field kind; a Click action goes through the hint split on commas, then the selectors
  built from its text and the catalog list chosen by its text; a Search action with a
  query goes through the hint split on commas, then the catalog list for search.  Each
  attempts exactly the candidates up to and including the first one in \<open>P\<close> and none
  after it, passes when some candidate is in \<open>P\<close>, and can be Failed only when none is.
  A Select action makes a single attempt with its selector as it stands.
\<close>

theorem first_success_wins:
  assumes tys: "\<And>sel v w. fst (perform_type_ops B sel v w) = (sel \<in> P)"
      and clk: "\<And>sel w. fst (click_ops B sel w) = (sel \<in> P)"
      and sea: "\<And>sel q w. (fst (perform_search_ops B sel q w) \<noteq> None) = (sel \<in> P)"
  shows "(the_str (a_value a) \<noteq> [] \<longrightarrow>
            fst (snd (execute_type B a ft w)) = until_first P (type_candidates B a ft w)
          \<and> (list_ex (\<lambda>c. c \<in> P) (type_candidates B a ft w)
                \<longrightarrow> r_status (fst (execute_type B a ft w)) = ''Passed'')
          \<and> (r_status (fst (execute_type B a ft w)) = ''Failed''
                \<longrightarrow> \<not> list_ex (\<lambda>c. c \<in> P) (type_candidates B a ft w)))
       \<and> (fst (snd (execute_click B a w)) = until_first P (click_strategies B a (wait_for_stability B w))
          \<and> (list_ex (\<lambda>c. c \<in> P) (click_strategies B a (wait_for_stability B w))
                \<longrightarrow> r_status (fst (execute_click B a w)) = ''Passed'')
          \<and> (r_status (fst (execute_click B a w)) = ''Failed''
                \<longrightarrow> \<not> list_ex (\<lambda>c. c \<in> P) (click_strategies B a (wait_for_stability B w))))
       \<and> (the_str (a_query a) \<noteq> [] \<longrightarrow>
            fst (snd (execute_search B a w)) = until_first P (search_candidates a)
          \<and> r_status (fst (execute_search B a w)) =
              (if list_ex (\<lambda>c. c \<in> P) (search_candidates a) then ''Passed'' else ''Failed''))
       \<and> (the_str (a_value a) \<noteq> [] \<longrightarrow>
            r_status (fst (execute_select B a ft w)) =
              (if fst (select_ops B (the_str (a_selector a)) (the_str (a_value a))
                         (wait_for_stability B w))
               then ''Passed'' else ''Failed''))"
proof (intro conjI impI)
  assume v: "the_str (a_value a) \<noteq> []"
  show "fst (snd (execute_type B a ft w)) = until_first P (type_candidates B a ft w)"
    using tys v by (rule execute_type_static(1))
  show "r_status (fst (execute_type B a ft w)) = ''Passed''"
    if "list_ex (\<lambda>c. c \<in> P) (type_candidates B a ft w)"
    using tys v that by (rule execute_type_static(2))
  show "\<not> list_ex (\<lambda>c. c \<in> P) (type_candidates B a ft w)"
    if "r_status (fst (execute_type B a ft w)) = ''Failed''"
    using tys v that by (rule execute_type_static(3))
next
  show "fst (snd (execute_click B a w)) = until_first P (click_strategies B a (wait_for_stability B w))"
    using clk by (rule execute_click_static(1))
  show "r_status (fst (execute_click B a w)) = ''Passed''"
    if "list_ex (\<lambda>c. c \<in> P) (click_strategies B a (wait_for_stability B w))"
    using clk that by (rule execute_click_static(2))
  show "\<not> list_ex (\<lambda>c. c \<in> P) (click_strategies B a (wait_for_stability B w))"
    if "r_status (fst (execute_click B a w)) = ''Failed''"
    using clk that by (rule execute_click_static(3))
next
  assume q: "the_str (a_query a) \<noteq> []"
  show "fst (snd (execute_search B a w)) = until_first P (search_candidates a)"
    using sea q by (rule execute_search_static(1))
  show "r_status (fst (execute_search B a w)) =
              (if list_ex (\<lambda>c. c \<in> P) (search_candidates a) then ''Passed'' else ''Failed'')"
    using sea q by (rule execute_search_static(2))
next
  assume v: "the_str (a_value a) \<noteq> []"
  then show "r_status (fst (execute_select B a ft w)) =
              (if fst (select_ops B (the_str (a_selector a)) (the_str (a_value a))
                         (wait_for_stability B w))
               then ''Passed'' else ''Failed'')"
    by (rule execute_select_single)
qed

text \<open>
  The instance of the claim: with the hint "c1, c2, c3", c1 absent, c2 and c3 present,
  Type, Click and Search each attempt c1 and c2 and pass; c3 is never attempted.  Select
  takes the hint as one selector and fails.
\<close>

theorem first_success_wins_witness:
  "type_candidates three_page three_hints ''nickname'' [] = [''c1'', ''c2'', ''c3'']
   \<and> fst (snd (execute_type three_page three_hints ''nickname'' [])) = [''c1'', ''c2'']
   \<and> r_status (fst (execute_type three_page three_hints ''nickname'' [])) = ''Passed''
   \<and> fst (snd (execute_click three_page three_hints [])) = [''c1'', ''c2'']
   \<and> r_status (fst (execute_click three_page three_hints [])) = ''Passed''
   \<and> fst (snd (execute_search three_page three_hints [])) = [''c1'', ''c2'']
   \<and> r_status (fst (execute_search three_page three_hints [])) = ''Passed''
   \<and> r_status (fst (execute_select three_page three_hints ''nickname'' [])) = ''Failed''"
proof -
  let ?P = "set [''c2'', ''c3'']"
  have h1: "\<And>sel v w. fst (perform_type_ops three_page sel v w) = (sel \<in> ?P)"
    by (simp add: three_page_def sample_browser_def)
  have h2: "\<And>sel w. fst (click_ops three_page sel w) = (sel \<in> ?P)"
    by (simp add: three_page_def sample_browser_def)
  have h3: "\<And>sel q w. (fst (perform_search_ops three_page sel q w) \<noteq> None) = (sel \<in> ?P)"
    by (simp add: three_page_def sample_browser_def)
  note fs = first_success_wins [where B = three_page and P = ?P and a = three_hints
                and ft = "''nickname''" and w = "[]", OF h1 h2 h3]
  have v: "the_str (a_value three_hints) \<noteq> []" by code_simp
  have q: "the_str (a_query three_hints) \<noteq> []" by code_simp
  have c1: "type_candidates three_page three_hints ''nickname'' [] = [''c1'', ''c2'', ''c3'']"
    by code_simp
  have u1: "until_first ?P (type_candidates three_page three_hints ''nickname'' []) = [''c1'', ''c2'']"
    by code_simp
  have u2: "until_first ?P (click_strategies three_page three_hints (wait_for_stability three_page []))
              = [''c1'', ''c2'']"
    by code_simp
  have u3: "until_first ?P (search_candidates three_hints) = [''c1'', ''c2'']"
    by code_simp
  have e1: "list_ex (\<lambda>c. c \<in> ?P) (type_candidates three_page three_hints ''nickname'' [])"
    by code_simp
  have e2: "list_ex (\<lambda>c. c \<in> ?P) (click_strategies three_page three_hints (wait_for_stability three_page []))"
    by code_simp
  have e3: "list_ex (\<lambda>c. c \<in> ?P) (search_candidates three_hints)"
    by code_simp
  have e4: "\<not> fst (select_ops three_page (the_str (a_selector three_hints)) (the_str (a_value three_hints))
                      (wait_for_stability three_page []))"
    by code_simp
  from fs v q c1 u1 u2 u3 e1 e2 e3 e4 show ?thesis by simp
qed

text \<open>
  C7 as stated fails: on a LinkedIn page the email field is typed through the LinkedIn
  selector and the hint \<open>#h\<close>, which could be operated, is never attempted.
\<close>

theorem linkedin_selectors_before_hint:
  "fst (snd (execute_type linkedin_page hinted_email ''email'' [])) = [''input[name='email-address']'']
   \<and> r_status (fst (execute_type linkedin_page hinted_email ''email'' [])) = ''Passed''
   \<and> split_selectors (the_str (a_selector hinted_email)) = [''#h'']
   \<and> fst (perform_type_ops linkedin_page ''#h'' ''a@b.co'' [])"
  by code_simp

end
